theory Spec2Isabelle
  imports Main "HOL-Library.Word"
begin

section \<open>Pagination and filtering helpers of the linodego client\<close>

text \<open>
  The development follows the Go source file with the pagination helpers:
  \<^verbatim>\<open>PageOptions\<close>, \<^verbatim>\<open>ListOptions\<close>, \<^verbatim>\<open>Hash\<close>, \<^verbatim>\<open>applyListOptionsToRequest\<close>,
  \<^verbatim>\<open>listHelper\<close>, \<^verbatim>\<open>flattenQueryStruct\<close> and \<^verbatim>\<open>queryFieldToString\<close>.

  Go's \<^verbatim>\<open>int\<close> is modelled by \<^typ>\<open>int\<close>. The helpers compare and print integers;
  the only arithmetic is the \<^verbatim>\<open>page++\<close> of the page loop. It leaves the machine range
  only when the server reports the largest machine integer as the number of pages and
  the loop has issued a request for every page number up to it; from there on the loop
  of the Go program does not end without an error. So the model and the program agree on
  every call that returns no error, and on every call that returns an error before that
  point.
\<close>

subsection \<open>Values as seen through reflection\<close>

text \<open>
  \<^verbatim>\<open>flattenQueryStruct\<close> inspects its argument with package \<^verbatim>\<open>reflect\<close>. A
  \<^verbatim>\<open>reflect.Value\<close> is modelled by its kind, the name of its type
  (\<^verbatim>\<open>Type().Name()\<close>, empty for an unnamed type) and the data the helpers read:
  the boolean, integer or string it holds, the pointee of a pointer (\<open>None\<close> for a nil
  pointer), the fields of a struct. A struct field is its name, the result of
  \<^verbatim>\<open>Tag.Lookup("query")\<close> and its value. Every other kind (unsigned integers, floats,
  slices, maps, ...) is never read beyond its kind, its type name and whether it is the
  zero value, so \<open>VOther\<close> carries just these.
\<close>

datatype IntKind = KInt | KInt8 | KInt16 | KInt32 | KInt64

datatype OtherKind =
    KUint | KUint8 | KUint16 | KUint32 | KUint64 | KUintptr
  | KFloat32 | KFloat64 | KComplex64 | KComplex128
  | KArray | KChan | KFunc | KInterface | KMap | KSlice | KUnsafePointer

datatype Value =
    VBool string bool
  | VInt IntKind string int
  | VString string string
  | VPointer string "Value option"
  | VStruct string "(string \<times> string option \<times> Value) list"
  | VOther OtherKind string bool

text \<open>
  \<^verbatim>\<open>Value.IsZero\<close>: false, zero, the empty string, a nil pointer, a struct whose fields
  are all zero.
\<close>

fun IsZero :: "Value \<Rightarrow> bool" where
  "IsZero (VBool _ b) = (\<not> b)"
| "IsZero (VInt _ _ i) = (i = 0)"
| "IsZero (VString _ s) = (length s = 0)"
| "IsZero (VPointer _ p) = (p = None)"
| "IsZero (VStruct _ fs) = list_all (\<lambda>f. IsZero (snd (snd f))) fs"
| "IsZero (VOther _ _ z) = z"

text \<open>\<^verbatim>\<open>Kind().String()\<close>; the zero \<^verbatim>\<open>reflect.Value\<close> (of a nil interface) has kind \<^verbatim>\<open>invalid\<close>.\<close>

fun IntKind_String :: "IntKind \<Rightarrow> string" where
  "IntKind_String KInt = ''int''"
| "IntKind_String KInt8 = ''int8''"
| "IntKind_String KInt16 = ''int16''"
| "IntKind_String KInt32 = ''int32''"
| "IntKind_String KInt64 = ''int64''"

fun OtherKind_String :: "OtherKind \<Rightarrow> string" where
  "OtherKind_String KUint = ''uint''"
| "OtherKind_String KUint8 = ''uint8''"
| "OtherKind_String KUint16 = ''uint16''"
| "OtherKind_String KUint32 = ''uint32''"
| "OtherKind_String KUint64 = ''uint64''"
| "OtherKind_String KUintptr = ''uintptr''"
| "OtherKind_String KFloat32 = ''float32''"
| "OtherKind_String KFloat64 = ''float64''"
| "OtherKind_String KComplex64 = ''complex64''"
| "OtherKind_String KComplex128 = ''complex128''"
| "OtherKind_String KArray = ''array''"
| "OtherKind_String KChan = ''chan''"
| "OtherKind_String KFunc = ''func''"
| "OtherKind_String KInterface = ''interface''"
| "OtherKind_String KMap = ''map''"
| "OtherKind_String KSlice = ''slice''"
| "OtherKind_String KUnsafePointer = ''unsafe.Pointer''"

fun Kind_String :: "Value option \<Rightarrow> string" where
  "Kind_String None = ''invalid''"
| "Kind_String (Some (VBool _ _)) = ''bool''"
| "Kind_String (Some (VInt k _ _)) = IntKind_String k"
| "Kind_String (Some (VString _ _)) = ''string''"
| "Kind_String (Some (VPointer _ _)) = ''ptr''"
| "Kind_String (Some (VStruct _ _)) = ''struct''"
| "Kind_String (Some (VOther k _ _)) = OtherKind_String k"

fun Type_Name :: "Value \<Rightarrow> string" where
  "Type_Name (VBool n _) = n"
| "Type_Name (VInt _ n _) = n"
| "Type_Name (VString n _) = n"
| "Type_Name (VPointer n _) = n"
| "Type_Name (VStruct n _) = n"
| "Type_Name (VOther _ n _) = n"

subsection \<open>Package strconv\<close>

text \<open>
  \<^verbatim>\<open>strconv.FormatInt(i, 10)\<close>, \<^verbatim>\<open>strconv.Itoa\<close> and \<^verbatim>\<open>strconv.FormatBool\<close>.
  \<open>decimalValue\<close> reads a decimal numeral back; it is used to state that \<open>FormatInt\<close>
  writes base 10.
\<close>

fun digits :: "nat \<Rightarrow> string" where
  "digits n = (if n < 10 then [''0123456789'' ! n]
               else digits (n div 10) @ [''0123456789'' ! (n mod 10)])"

declare digits.simps [simp del]

definition FormatInt :: "int \<Rightarrow> string" where
  "FormatInt i = (if i < 0 then CHR ''-'' # digits (nat (- i)) else digits (nat i))"

definition Itoa :: "int \<Rightarrow> string" where
  "Itoa i = FormatInt i"

definition FormatBool :: "bool \<Rightarrow> string" where
  "FormatBool b = (if b then ''true'' else ''false'')"

definition digitValue :: "char \<Rightarrow> nat" where
  "digitValue c = of_char c - 48"

definition decimalValue :: "string \<Rightarrow> nat" where
  "decimalValue s = foldl (\<lambda>a c. 10 * a + digitValue c) 0 s"

fun ParseInt :: "string \<Rightarrow> int" where
  "ParseInt [] = 0"
| "ParseInt (c # cs) = (if c = CHR ''-'' then - int (decimalValue cs) else int (decimalValue (c # cs)))"

subsection \<open>Errors\<close>

text \<open>
  One constructor for each place where the helpers build an error with \<^verbatim>\<open>fmt.Errorf\<close>,
  carrying the formatted argument; \<open>External\<close> is an error of the transport or of the
  JSON encoder. \<open>NilPointerDereference\<close> is the run-time panic of a field access through
  a nil embedded \<^verbatim>\<open>*PageOptions\<close>.
\<close>

datatype 'e error =
    QueryParamsNilPointer
  | ExpectedStruct string
  | InvalidQueryParamTag string
  | UnsupportedQueryParamType string
  | FailedToApplyListOptions "'e error"
  | FailedToCache "'e error"
  | External 'e
  | NilPointerDereference

subsection \<open>The query flattener\<close>

text \<open>
  \<^verbatim>\<open>queryFieldToString\<close> switches on the kind of the value: \<^verbatim>\<open>String\<close>; \<^verbatim>\<open>Int64\<close>,
  \<^verbatim>\<open>Int32\<close>, \<^verbatim>\<open>Int\<close>; \<^verbatim>\<open>Bool\<close>; and the default case, which fails with the name of
  the value's type.
\<close>

fun queryFieldToString :: "Value \<Rightarrow> 'e error + string" where
  "queryFieldToString (VString _ s) = Inr s"
| "queryFieldToString (VInt k n i) =
     (if k = KInt64 \<or> k = KInt32 \<or> k = KInt then Inr (FormatInt i)
      else Inl (UnsupportedQueryParamType n))"
| "queryFieldToString (VBool _ b) = Inr (FormatBool b)"
| "queryFieldToString v = Inl (UnsupportedQueryParamType (Type_Name v))"

text \<open>
  \<^verbatim>\<open>reflect.Indirect\<close>: the pointee of a pointer, any other value itself. The
  flattener calls it on fields that are not zero only, so never on a nil pointer.
\<close>

fun Indirect :: "Value \<Rightarrow> Value" where
  "Indirect (VPointer _ (Some p)) = p"
| "Indirect v = v"

text \<open>
  \<^verbatim>\<open>Value.FieldByName\<close> returns the first field of that name. The loop of
  \<^verbatim>\<open>flattenQueryStruct\<close> is \<open>flattenFields\<close>: its first argument is the struct
  (\<^verbatim>\<open>reflectVal\<close>), its second the fields still to visit, its third the
  \<^verbatim>\<open>result\<close> map so far.
\<close>

fun FieldByName :: "(string \<times> string option \<times> Value) list \<Rightarrow> string \<Rightarrow> Value option" where
  "FieldByName [] name = None"
| "FieldByName ((n, t, v) # fs) name = (if n = name then Some v else FieldByName fs name)"

fun flattenFields ::
  "(string \<times> string option \<times> Value) list \<Rightarrow> (string \<times> string option \<times> Value) list \<Rightarrow>
   (string \<rightharpoonup> string) \<Rightarrow> 'e error + (string \<rightharpoonup> string)" where
  "flattenFields reflectVal [] result = Inr result"
| "flattenFields reflectVal ((name, tag, _) # rest) result =
     (case tag of
        None \<Rightarrow> flattenFields reflectVal rest result
      | Some queryTag \<Rightarrow>
          (case FieldByName reflectVal name of
             None \<Rightarrow> Inl (InvalidQueryParamTag name)
           | Some valField \<Rightarrow>
               if IsZero valField then flattenFields reflectVal rest result
               else
                 (case queryFieldToString (Indirect valField) of
                    Inl err \<Rightarrow> Inl err
                  | Inr fieldString \<Rightarrow>
                      flattenFields reflectVal rest (result(queryTag \<mapsto> fieldString)))))"

fun flattenQueryStruct :: "Value option \<Rightarrow> 'e error + (string \<rightharpoonup> string)" where
  "flattenQueryStruct (Some (VPointer _ None)) = Inl QueryParamsNilPointer"
| "flattenQueryStruct (Some (VPointer _ (Some (VStruct _ fs)))) = flattenFields fs fs Map.empty"
| "flattenQueryStruct (Some (VPointer _ (Some v))) = Inl (ExpectedStruct (Kind_String (Some v)))"
| "flattenQueryStruct (Some (VStruct _ fs)) = flattenFields fs fs Map.empty"
| "flattenQueryStruct v = Inl (ExpectedStruct (Kind_String v))"


subsection \<open>List options and requests\<close>

text \<open>
  \<^verbatim>\<open>ListOptions\<close> embeds a \<^verbatim>\<open>*PageOptions\<close>: \<open>None\<close> is the nil pointer, and the
  pointee is held in the record, since the helpers reach it through its
  \<^verbatim>\<open>ListOptions\<close> only.
  \<^verbatim>\<open>QueryParams\<close> is an \<^verbatim>\<open>any\<close>: \<open>None\<close> is the nil interface. Of a
  \<^verbatim>\<open>resty.Request\<close> the helpers set query parameters and headers.
\<close>

record PageOptions =
  Page :: int
  Pages :: int
  Results :: int

record ListOptions =
  PageOptions :: "PageOptions option"
  PageSize :: int
  Filter :: string
  QueryParams :: "Value option"

record Request =
  QueryParam :: "string \<rightharpoonup> string"
  Header :: "string \<rightharpoonup> string"

text \<open>\<^verbatim>\<open>NewListOptions\<close> returns a pointer to a new object; this is the object.\<close>

definition NewListOptions :: "int \<Rightarrow> string \<Rightarrow> ListOptions" where
  "NewListOptions page fltr =
     \<lparr>PageOptions = Some \<lparr>Page = page, Pages = 0, Results = 0\<rparr>,
      PageSize = 0, Filter = fltr, QueryParams = None\<rparr>"

definition applyListOptionsToRequest :: "ListOptions option \<Rightarrow> Request \<Rightarrow> 'e error + Request" where
  "applyListOptionsToRequest opts req =
     (case opts of
        None \<Rightarrow> Inr req
      | Some l \<Rightarrow>
          (case (case QueryParams l of
                   None \<Rightarrow> Inr req
                 | Some q \<Rightarrow>
                     (case flattenQueryStruct (Some q) of
                        Inl err \<Rightarrow> Inl (FailedToApplyListOptions err)
                      | Inr params \<Rightarrow> Inr (req\<lparr>QueryParam := QueryParam req ++ params\<rparr>))) of
             Inl err \<Rightarrow> Inl err
           | Inr req1 \<Rightarrow>
               (let req2 = (case PageOptions l of
                              Some po \<Rightarrow>
                                if Page po > 0
                                then req1\<lparr>QueryParam := (QueryParam req1)(''page'' \<mapsto> Itoa (Page po))\<rparr>
                                else req1
                            | None \<Rightarrow> req1);
                    req3 = (if PageSize l > 0
                            then req2\<lparr>QueryParam := (QueryParam req2)(''page_size'' \<mapsto> Itoa (PageSize l))\<rparr>
                            else req2);
                    req4 = (if length (Filter l) > 0
                            then req3\<lparr>Header := (Header req3)(''X-Filter'' \<mapsto> Filter l)\<rparr>
                            else req3)
                in Inr req4)))"

text \<open>
  For the statements below: what \<^verbatim>\<open>QueryParams\<close> contribute to a request. Nil options
  and a nil \<^verbatim>\<open>QueryParams\<close> contribute nothing; otherwise
  \<^verbatim>\<open>applyListOptionsToRequest\<close> flattens \<^verbatim>\<open>QueryParams\<close> and fails if that fails.
\<close>

definition queryParamsOf :: "ListOptions option \<Rightarrow> 'e error + (string \<rightharpoonup> string)" where
  "queryParamsOf opts =
     (case opts of
        None \<Rightarrow> Inr Map.empty
      | Some l \<Rightarrow>
          (case QueryParams l of
             None \<Rightarrow> Inr Map.empty
           | Some q \<Rightarrow> flattenQueryStruct (Some q)))"

subsection \<open>Hash\<close>

text \<open>
  \<^verbatim>\<open>json.Marshal\<close> and \<^verbatim>\<open>sha256\<close> belong to Go's standard library; \<open>Hash\<close> takes
  them as parameters. \<^verbatim>\<open>fmt.Sprintf("%x", bytes)\<close> writes each byte as two lowercase
  hexadecimal digits. The receiver is a copy of the options; the encoder follows the
  embedded pointer, which the record holds inline.
\<close>

definition hexByte :: "8 word \<Rightarrow> string" where
  "hexByte b = [''0123456789abcdef'' ! (unat b div 16), ''0123456789abcdef'' ! (unat b mod 16)]"

definition Sprintf_x :: "8 word list \<Rightarrow> string" where
  "Sprintf_x bs = concat (map hexByte bs)"

text \<open>Reading hexadecimal digits back, to state what \<open>Sprintf_x\<close> writes.\<close>

definition hexDigitValue :: "char \<Rightarrow> nat" where
  "hexDigitValue c = (if of_char c < (97 :: nat) then of_char c - 48 else of_char c - 87)"

fun decodeHex :: "string \<Rightarrow> 8 word list" where
  "decodeHex (a # b # cs) = word_of_nat (16 * hexDigitValue a + hexDigitValue b) # decodeHex cs"
| "decodeHex _ = []"

definition Hash ::
  "(ListOptions \<Rightarrow> 'e error + 8 word list) \<Rightarrow> (8 word list \<Rightarrow> 8 word list) \<Rightarrow>
   ListOptions \<Rightarrow>
   'e error + string" where
  "Hash Marshal Sum256 l =
     (case Marshal l of
        Inl err \<Rightarrow> Inl (FailedToCache err)
      | Inr data \<Rightarrow> Inr (Sprintf_x (Sum256 data)))"

subsection \<open>The paged fetch\<close>

text \<open>
  \<^verbatim>\<open>listHelper\<close> receives a pointer to the caller's \<^verbatim>\<open>ListOptions\<close> and writes through
  it. The store maps addresses to \<^verbatim>\<open>ListOptions\<close> objects; \<open>next_free\<close> is the first
  address not yet allocated. \<open>opts\<close> is \<open>None\<close> for nil, \<open>Some a\<close> for a pointer to the
  object at \<open>a\<close>.
\<close>

record store =
  cells :: "nat \<Rightarrow> ListOptions"
  next_free :: nat

definition alloc :: "ListOptions \<Rightarrow> store \<Rightarrow> nat \<times> store" where
  "alloc v h = (next_free h, h\<lparr>cells := (cells h)(next_free h := v), next_free := Suc (next_free h)\<rparr>)"

definition assign :: "nat \<Rightarrow> ListOptions \<Rightarrow> store \<Rightarrow> store" where
  "assign a v h = h\<lparr>cells := (cells h)(a := v)\<rparr>"

text \<open>
  The interface \<^verbatim>\<open>PagedResponse\<close>. An implementation keeps its results in its own
  state \<open>'s\<close>, which \<open>castResult\<close> reads and returns updated.
\<close>

record ('s, 'i, 'e) PagedResponse =
  endpoint :: "'i list \<Rightarrow> string"
  castResult :: "Request \<Rightarrow> string \<Rightarrow> 's \<Rightarrow> ('e error + int \<times> int) \<times> 's"

text \<open>
  \<open>fetchAllSentinel\<close> holds when the options ask for every page: nil options, a nil
  \<^verbatim>\<open>PageOptions\<close> or page 0. It is the measure of the recursion below.
\<close>

definition fetchAllSentinel :: "nat option \<Rightarrow> store \<Rightarrow> bool" where
  "fetchAllSentinel opts h =
     (case opts of
        None \<Rightarrow> True
      | Some a \<Rightarrow> (case PageOptions (cells h a) of None \<Rightarrow> True | Some po \<Rightarrow> Page po = 0))"

text \<open>
  \<^verbatim>\<open>listHelper\<close> and its \<^verbatim>\<open>for\<close> loop, which calls \<^verbatim>\<open>listHelper\<close> again.
  \<open>req0\<close> is the fresh request \<^verbatim>\<open>c.R(ctx)\<close>. The result is the returned error
  (\<open>None\<close> for nil), the store and the state of the pager. \<^verbatim>\<open>opts.Page\<close>,
  \<^verbatim>\<open>opts.Results\<close> and \<^verbatim>\<open>opts.Pages\<close> go through the embedded pointer: where the
  source writes them after a call that may have changed the object, the model fails with
  \<open>NilPointerDereference\<close> if the pointer is nil, as the Go program would panic.
\<close>

function listHelper ::
  "('s, 'i, 'e) PagedResponse \<Rightarrow> Request \<Rightarrow> nat option \<Rightarrow> 'i list \<Rightarrow> store \<Rightarrow> 's \<Rightarrow>
   'e error option \<times> store \<times> 's"
and pageLoop ::
  "('s, 'i, 'e) PagedResponse \<Rightarrow> Request \<Rightarrow> nat \<Rightarrow> 'i list \<Rightarrow> int \<Rightarrow> int \<Rightarrow> store \<Rightarrow> 's \<Rightarrow>
   'e error option \<times> store \<times> 's"
where
  "listHelper pager req0 opts ids h s =
     (case applyListOptionsToRequest (map_option (cells h) opts) req0 of
        Inl err \<Rightarrow> (Some err, h, s)
      | Inr req \<Rightarrow>
          (case castResult pager req (endpoint pager ids) s of
             (Inl err, s1) \<Rightarrow> (Some err, h, s1)
           | (Inr (pages, results), s1) \<Rightarrow>
               (case (case opts of
                        None \<Rightarrow>
                          alloc \<lparr>PageOptions = Some \<lparr>Page = 0, Pages = 0, Results = 0\<rparr>,
                                 PageSize = 0, Filter = [], QueryParams = None\<rparr> h
                      | Some a \<Rightarrow> (a, h)) of
                  (a, h1) \<Rightarrow>
                    (case (case PageOptions (cells h1 a) of
                             None \<Rightarrow> \<lparr>Page = 0, Pages = 0, Results = 0\<rparr>
                           | Some po \<Rightarrow> po) of
                       po \<Rightarrow>
                         (case (if Page po = 0
                                then pageLoop pager req0 a ids 2 pages
                                       (assign a ((cells h1 a)\<lparr>PageOptions := Some po\<rparr>) h1) s1
                                else (None, assign a ((cells h1 a)\<lparr>PageOptions := Some po\<rparr>) h1, s1)) of
                            (Some err, h3, s3) \<Rightarrow> (Some err, h3, s3)
                          | (None, h3, s3) \<Rightarrow>
                              (case PageOptions (cells h3 a) of
                                 None \<Rightarrow> (Some NilPointerDereference, h3, s3)
                               | Some po3 \<Rightarrow>
                                   (None,
                                    assign a ((cells h3 a)\<lparr>PageOptions :=
                                        Some (po3\<lparr>Results := results, Pages := pages\<rparr>)\<rparr>) h3,
                                    s3)))))))"
| "pageLoop pager req0 a ids page pages h s =
     (if page \<le> pages then
        (case PageOptions (cells h a) of
           None \<Rightarrow> (Some NilPointerDereference, h, s)
         | Some po \<Rightarrow>
             (case listHelper pager req0 (Some a) ids
                     (assign a ((cells h a)\<lparr>PageOptions := Some (po\<lparr>Page := page\<rparr>)\<rparr>) h) s of
                (Some err, h1, s1) \<Rightarrow> (Some err, h1, s1)
              | (None, h1, s1) \<Rightarrow> pageLoop pager req0 a ids (page + 1) pages h1 s1))
      else (None, h, s))"
  by pat_completeness auto
termination
  apply (relation "inv_image (less_than <*lex*> less_than)
     (\<lambda>x. case x of
        Inl (pager, req0, opts, ids, h, s) \<Rightarrow>
          (if fetchAllSentinel opts h then 2 else 0, 0)
      | Inr (pager, req0, a, ids, page, pages, h, s) \<Rightarrow>
          (if page \<le> 0 \<and> 0 \<le> pages then 3 else 1, nat (pages + 1 - page)))")
  apply (auto simp: fetchAllSentinel_def assign_def alloc_def split: option.splits if_splits)
  done

declare listHelper.simps [simp del] pageLoop.simps [simp del]

subsection \<open>A paged capability\<close>

text \<open>
  Modelled from the spec: no implementation of \<^verbatim>\<open>PagedResponse\<close> is in the source, only
  the interface. The spec's \<^verbatim>\<open>decodePage\<close> "issues exactly one HTTP GET, decodes the page
  body into the capability's own result accumulator (side effect), returns pagination
  metadata or an error". The capability's state is the list of the requests it has issued,
  each with the address it went to, and its accumulator. The server is any function from
  the requests issued so far and the request at hand to an error or to a page of items
  with the total number of pages and of results.
\<close>

record 'a PagerState =
  sent :: "(Request \<times> string) list"
  acc :: "'a list"

type_synonym ('a, 'e) server =
  "(Request \<times> string) list \<Rightarrow> Request \<Rightarrow> string \<Rightarrow> 'e error + 'a list \<times> int \<times> int"

definition decodePage ::
  "('a, 'e) server \<Rightarrow> Request \<Rightarrow> string \<Rightarrow> 'a PagerState \<Rightarrow>
   ('e error + int \<times> int) \<times> 'a PagerState" where
  "decodePage server req url s =
     (case server (sent s) req url of
        Inl err \<Rightarrow> (Inl err, s\<lparr>sent := sent s @ [(req, url)]\<rparr>)
      | Inr (items, pages, results) \<Rightarrow>
          (Inr (pages, results), s\<lparr>sent := sent s @ [(req, url)], acc := acc s @ items\<rparr>))"

definition capability ::
  "('i list \<Rightarrow> string) \<Rightarrow> ('a, 'e) server \<Rightarrow> ('a PagerState, 'i, 'e) PagedResponse" where
  "capability resolveEndpoint server = \<lparr>endpoint = resolveEndpoint, castResult = decodePage server\<rparr>"

text \<open>
  For the statements below: the request for page \<open>k\<close> built from the request for the
  first page, the server's replies to a sequence of requests issued one after the other,
  whether a reply is a page, and the items of a reply.
\<close>

definition pageRequest :: "Request \<Rightarrow> int \<Rightarrow> Request" where
  "pageRequest req k = req\<lparr>QueryParam := (QueryParam req)(''page'' \<mapsto> Itoa k)\<rparr>"

fun replies ::
  "('a, 'e) server \<Rightarrow> string \<Rightarrow> (Request \<times> string) list \<Rightarrow> Request list \<Rightarrow>
   ('e error + 'a list \<times> int \<times> int) list" where
  "replies server url log [] = []"
| "replies server url log (req # reqs) =
     server log req url # replies server url (log @ [(req, url)]) reqs"

text \<open>
  The page loop over this capability, written as a recursion over the list of page
  numbers still to fetch: it returns the error, the \<^verbatim>\<open>PageOptions\<close> the loop leaves
  behind and the state of the capability. \<open>pageLoop_walkPages\<close> below proves that the
  loop of \<open>listHelper\<close> computes this.
\<close>

fun walkPages ::
  "('a, 'e) server \<Rightarrow> string \<Rightarrow> Request \<Rightarrow> int list \<Rightarrow> PageOptions \<Rightarrow> 'a PagerState \<Rightarrow>
   'e error option \<times> PageOptions \<times> 'a PagerState" where
  "walkPages server url req [] po s = (None, po, s)"
| "walkPages server url req (k # ks) po s =
     (case server (sent s) (pageRequest req k) url of
        Inl err \<Rightarrow>
          (Some err, po\<lparr>Page := k\<rparr>, s\<lparr>sent := sent s @ [(pageRequest req k, url)]\<rparr>)
      | Inr (items, pages, results) \<Rightarrow>
          walkPages server url req ks (po\<lparr>Page := k, Results := results, Pages := pages\<rparr>)
            (s\<lparr>sent := sent s @ [(pageRequest req k, url)], acc := acc s @ items\<rparr>))"

fun isPage :: "'e error + 'a list \<times> int \<times> int \<Rightarrow> bool" where
  "isPage (Inl _) = False"
| "isPage (Inr _) = True"

fun itemsOf :: "'e error + 'a list \<times> int \<times> int \<Rightarrow> 'a list" where
  "itemsOf (Inl _) = []"
| "itemsOf (Inr (items, _, _)) = items"

subsection \<open>An example collection\<close>

text \<open>
  A collection of three pages with two items each, used for the concrete runs below. While
  it is being listed a seventh item is created: the first two pages report six results,
  the third reports seven. \<open>failingServer\<close> serves the same collection and fails on
  page 3.
\<close>

definition exampleServer :: "(nat, unit) server" where
  "exampleServer log req url =
     (case QueryParam req ''page'' of
        None \<Rightarrow> Inr ([1, 2], 3, 6)
      | Some p \<Rightarrow>
          if p = ''1'' then Inr ([1, 2], 3, 6)
          else if p = ''2'' then Inr ([3, 4], 3, 6)
          else if p = ''3'' then Inr ([5, 6], 3, 7)
          else Inr ([], 3, 7))"

definition failingServer :: "(nat, unit) server" where
  "failingServer log req url =
     (if QueryParam req ''page'' = Some ''3'' then Inl (External ())
      else exampleServer log req url)"

definition exampleEndpoint :: "nat list \<Rightarrow> string" where
  "exampleEndpoint = (\<lambda>ids. ''instances'')"

definition emptyRequest :: Request where
  "emptyRequest = \<lparr>QueryParam = Map.empty, Header = Map.empty\<rparr>"

definition emptyPager :: "nat PagerState" where
  "emptyPager = \<lparr>sent = [], acc = []\<rparr>"

text \<open>A store with one object, a \<^verbatim>\<open>ListOptions{}\<close> at address 0.\<close>

definition exampleStore :: store where
  "exampleStore =
     \<lparr>cells = (\<lambda>a. \<lparr>PageOptions = None, PageSize = 0, Filter = [], QueryParams = None\<rparr>),
      next_free = 1\<rparr>"

section \<open>Properties\<close>

subsection \<open>Decimal and hexadecimal output\<close>

lemma lt10_cases: "(d::nat) < 10 \<Longrightarrow> d \<in> {0, 1, 2, 3, 4, 5, 6, 7, 8, 9}"
  by auto

lemma digit_char_value: "d < 10 \<Longrightarrow> digitValue (''0123456789'' ! d) = d"
  by (drule lt10_cases) (auto simp: digitValue_def)

lemma decimalValue_snoc: "decimalValue (s @ [c]) = 10 * decimalValue s + digitValue c"
  by (simp add: decimalValue_def)

lemma decimalValue_digits: "decimalValue (digits n) = n"
proof (induction n rule: digits.induct)
  case (1 n)
  show ?case
  proof (cases "n < 10")
    case True
    then show ?thesis
      by (subst digits.simps) (simp add: decimalValue_def digit_char_value)
  next
    case False
    with 1 have "decimalValue (digits (n div 10)) = n div 10" by simp
    with False show ?thesis
      by (subst digits.simps) (simp add: decimalValue_snoc digit_char_value)
  qed
qed

lemma set_digits: "set (digits n) \<subseteq> set ''0123456789''"
proof (induction n rule: digits.induct)
  case (1 n)
  show ?case
  proof (cases "n < 10")
    case True
    have "''0123456789'' ! n \<in> set ''0123456789''"
      using True by (intro nth_mem) simp
    then show ?thesis
      using True by (subst digits.simps) simp
  next
    case False
    have "''0123456789'' ! (n mod 10) \<in> set ''0123456789''"
      by (intro nth_mem) simp
    moreover from 1 False have "set (digits (n div 10)) \<subseteq> set ''0123456789''" by simp
    ultimately show ?thesis
      using False by (subst digits.simps) simp
  qed
qed

lemma digits_not_Nil: "digits n \<noteq> []"
  by (subst digits.simps) simp

lemma ParseInt_FormatInt: "ParseInt (FormatInt i) = i"
proof (cases "i < 0")
  case True
  then show ?thesis by (simp add: FormatInt_def decimalValue_digits)
next
  case False
  obtain c cs where d: "digits (nat i) = c # cs"
    using digits_not_Nil by (cases "digits (nat i)") auto
  have "c \<in> set ''0123456789''"
    using set_digits [of "nat i"] d by auto
  then have "c \<noteq> CHR ''-''" by auto
  with False d decimalValue_digits [of "nat i"] show ?thesis
    by (simp add: FormatInt_def)
qed

lemma upt16: "[0..<16] = [0, 1, 2, 3, 4, 5, 6, 7, 8, 9, 10, 11, 12, 13, 14, 15::nat]"
  by code_simp

lemma lt16_cases: "(d::nat) < 16 \<Longrightarrow> d \<in> {0, 1, 2, 3, 4, 5, 6, 7, 8, 9, 10, 11, 12, 13, 14, 15}"
proof -
  assume "d < 16"
  then have "d \<in> set [0..<16]" by simp
  then show ?thesis unfolding upt16 by simp
qed

lemma hex_digit_range: "d < 16 \<Longrightarrow> ''0123456789abcdef'' ! d \<in> set ''0123456789abcdef''"
  by (intro nth_mem) simp

lemma set_hexByte: "set (hexByte b) \<subseteq> set ''0123456789abcdef''"
proof -
  have "unat b < 256" using unsigned_less [of b, where ?'a = nat] by simp
  then have "unat b div 16 < 16" by simp
  moreover have "unat b mod 16 < 16" by simp
  ultimately show ?thesis
    unfolding hexByte_def using hex_digit_range by (metis empty_set insert_subset list.simps(15) subsetI empty_iff)
qed

lemma length_Sprintf_x: "length (Sprintf_x bs) = 2 * length bs"
  by (induction bs) (simp_all add: Sprintf_x_def hexByte_def)

lemma set_Sprintf_x: "set (Sprintf_x bs) \<subseteq> set ''0123456789abcdef''"
  unfolding Sprintf_x_def using set_hexByte by (induction bs) auto

lemma hexDigitValue_digit: "d < 16 \<Longrightarrow> hexDigitValue (''0123456789abcdef'' ! d) = d"
  by (drule lt16_cases) (auto simp: hexDigitValue_def)

lemma decodeHex_hexByte: "decodeHex (hexByte b @ cs) = b # decodeHex cs"
proof -
  have "unat b < 256" using unsigned_less [of b, where ?'a = nat] by simp
  then have "unat b div 16 < 16" by simp
  moreover have "unat b mod 16 < 16" by simp
  ultimately show ?thesis
    by (simp add: hexByte_def hexDigitValue_digit)
qed

lemma decodeHex_Sprintf_x: "decodeHex (Sprintf_x bs) = bs"
proof (induction bs)
  case Nil
  then show ?case by (simp add: Sprintf_x_def)
next
  case (Cons b bs)
  then show ?case
    using decodeHex_hexByte [of b "Sprintf_x bs"] by (simp add: Sprintf_x_def)
qed

subsection \<open>The query flattener\<close>



lemma flattenFields_append:
  "flattenFields all (pre @ rest) m0 =
     (case flattenFields all pre m0 of
        Inl err \<Rightarrow> (Inl err :: 'e error + _)
      | Inr m1 \<Rightarrow> flattenFields all rest m1)"
proof (induction pre arbitrary: m0)
  case Nil
  then show ?case by simp
next
  case (Cons f pre)
  obtain n tg v where f: "f = (n, tg, v)" by (cases f)
  show ?case
  proof (cases tg)
    case None
    with f show ?thesis by (simp add: Cons.IH)
  next
    case (Some queryTag)
    note tg = Some
    show ?thesis
    proof (cases "FieldByName all n")
      case None
      with f tg show ?thesis by simp
    next
      case (Some valField)
      show ?thesis
      proof (cases "queryFieldToString (Indirect valField) :: 'e error + string")
        case (Inl err)
        with f tg Some show ?thesis by (simp add: Cons.IH)
      next
        case (Inr fieldString)
        with f tg Some show ?thesis by (simp add: Cons.IH fun_upd_def)
      qed
    qed
  qed
qed




text \<open>
  C5, the integer widths. The claim says that an integer field of any width is written in
  base 10. The switch of \<^verbatim>\<open>queryFieldToString\<close> lists the kinds \<^verbatim>\<open>Int64\<close>, \<^verbatim>\<open>Int32\<close>
  and \<^verbatim>\<open>Int\<close>; an \<^verbatim>\<open>int8\<close> field falls to the default case.
\<close>

theorem queryFieldToString_int8_counterexample:
  "queryFieldToString (VInt KInt8 ''int8'' 5) =
     (Inl (UnsupportedQueryParamType ''int8'') :: unit error + string)"
  by simp

text \<open>
  C5, as amended. Take a struct and a field of it that carries a query tag, let the value
  the loop reads under the field's name be not zero, and let the fields before it flatten
  without error, so that the loop reaches it. The value that is stringified is that
  value, or its pointee if it is a pointer. If it is a string, the tag is mapped to it;
  if it is an integer of kind \<^verbatim>\<open>int\<close>, \<^verbatim>\<open>int32\<close> or \<^verbatim>\<open>int64\<close>, to its decimal
  numeral, which reads back as the same integer; if it is a boolean, to \<^verbatim>\<open>true\<close> or
  \<^verbatim>\<open>false\<close>; and the loop goes on with the fields after it. If it is of any other kind,
  \<^verbatim>\<open>int8\<close> and \<^verbatim>\<open>int16\<close> among them, flattening fails with the error that carries the
  name of that value's type.
\<close>

theorem flattenQueryStruct_field_by_kind:
  assumes look: "FieldByName (pre @ (n, Some t, v0) # post) n = Some v"
    and nz: "\<not> IsZero v"
    and pre: "flattenFields (pre @ (n, Some t, v0) # post) pre Map.empty = (Inr m1 :: 'e error + _)"
  shows "flattenQueryStruct (Some (VStruct sn (pre @ (n, Some t, v0) # post))) =
     (case Indirect v of
        VString tn str \<Rightarrow> flattenFields (pre @ (n, Some t, v0) # post) post (m1(t \<mapsto> str))
      | VInt k tn i \<Rightarrow>
          if k = KInt64 \<or> k = KInt32 \<or> k = KInt
          then flattenFields (pre @ (n, Some t, v0) # post) post (m1(t \<mapsto> FormatInt i))
          else Inl (UnsupportedQueryParamType tn)
      | VBool tn b \<Rightarrow>
          flattenFields (pre @ (n, Some t, v0) # post) post
            (m1(t \<mapsto> if b then ''true'' else ''false''))
      | VPointer tn p \<Rightarrow> Inl (UnsupportedQueryParamType tn)
      | VStruct tn fs \<Rightarrow> Inl (UnsupportedQueryParamType tn)
      | VOther ok tn z \<Rightarrow> (Inl (UnsupportedQueryParamType tn) :: 'e error + _)) \<and>
     (\<forall>i. ParseInt (FormatInt i) = i)"
proof -
  let ?fs = "pre @ (n, Some t, v0) # post"
  have "flattenQueryStruct (Some (VStruct sn ?fs)) =
      (case queryFieldToString (Indirect v) of
         Inl err \<Rightarrow> (Inl err :: 'e error + _)
       | Inr fieldString \<Rightarrow> flattenFields ?fs post (m1(t \<mapsto> fieldString)))"
    using pre look nz by (simp add: flattenFields_append)
  then show ?thesis
    by (cases "Indirect v") (simp_all add: FormatBool_def ParseInt_FormatInt)
qed

theorem flattenQueryStruct_field_by_kind_witness:
  "(flattenQueryStruct (Some (VStruct ''Params''
       [(''Label'', Some ''label'', VString ''string'' ''a''),
        (''Ratio'', Some ''ratio'', VOther KFloat64 ''float64'' False),
        (''Count'', Some ''count'', VInt KInt ''int'' 7)])) :: unit error + _)
     = Inl (UnsupportedQueryParamType ''float64'') \<and>
   FieldByName
       [(''Label'', Some ''label'', VString ''string'' ''a''),
        (''Ratio'', Some ''ratio'', VOther KFloat64 ''float64'' False),
        (''Count'', Some ''count'', VInt KInt ''int'' 7)] ''Ratio'' =
     Some (VOther KFloat64 ''float64'' False) \<and>
   (flattenFields
       [(''Label'', Some ''label'', VString ''string'' ''a''),
        (''Ratio'', Some ''ratio'', VOther KFloat64 ''float64'' False),
        (''Count'', Some ''count'', VInt KInt ''int'' 7)]
       [(''Label'', Some ''label'', VString ''string'' ''a'')] Map.empty :: unit error + _)
     = Inr [''label'' \<mapsto> ''a'']"
proof -
  let ?pre = "[(''Label'', Some ''label'', VString ''string'' ''a'')]"
  let ?post = "[(''Count'', Some ''count'', VInt KInt ''int'' 7)]"
  let ?v = "VOther KFloat64 ''float64'' False"
  have look: "FieldByName (?pre @ (''Ratio'', Some ''ratio'', ?v) # ?post) ''Ratio'' = Some ?v"
    by simp
  have nz: "\<not> IsZero ?v" by simp
  have pre: "flattenFields (?pre @ (''Ratio'', Some ''ratio'', ?v) # ?post) ?pre Map.empty =
      (Inr [''label'' \<mapsto> ''a''] :: unit error + _)"
    by simp
  from flattenQueryStruct_field_by_kind [OF look nz pre, of "''Params''"] pre look
  show ?thesis by simp
qed

subsection \<open>Hash\<close>

text \<open>
  C6. \<open>Marshal\<close> stands for \<^verbatim>\<open>json.Marshal\<close> and \<open>Sum256\<close> for the SHA-256 digest, which
  has 32 bytes. Options with the same serialization have the same hash; \<open>Hash\<close> fails,
  with the encoder's error wrapped, exactly when the encoder fails; otherwise its result
  is the digest of the serialized options written as 64 characters, each one of
  \<^verbatim>\<open>0123456789abcdef\<close>, two for each byte of the digest, which reading them as hexadecimal
  digits gives back.
\<close>

theorem Hash_deterministic_hex:
  assumes "\<forall>d. length (Sum256 d) = 32"
  shows "(Marshal l1 = Marshal l2 \<longrightarrow> Hash Marshal Sum256 l1 = Hash Marshal Sum256 l2) \<and>
         (case Marshal l of
            Inl err \<Rightarrow> Hash Marshal Sum256 l = Inl (FailedToCache err)
          | Inr data \<Rightarrow>
              Hash Marshal Sum256 l = Inr (Sprintf_x (Sum256 data)) \<and>
              length (Sprintf_x (Sum256 data)) = 64 \<and>
              set (Sprintf_x (Sum256 data)) \<subseteq> set ''0123456789abcdef'' \<and>
              decodeHex (Sprintf_x (Sum256 data)) = Sum256 data)"
  using assms set_Sprintf_x
  by (simp add: Hash_def length_Sprintf_x decodeHex_Sprintf_x split: sum.splits)

theorem Hash_deterministic_hex_witness:
  "Hash (\<lambda>l. Inr (map of_char (Filter l))) (\<lambda>d. replicate 32 0) (NewListOptions 0 ''a'') =
     (Inr (concat (replicate 32 ''00'')) :: unit error + string) \<and>
   Hash (\<lambda>l. Inr (map of_char (Filter l))) (\<lambda>d. replicate 32 0) (NewListOptions 2 ''a'') =
     (Inr (concat (replicate 32 ''00'')) :: unit error + string)"
proof -
  have h: "\<forall>d :: 8 word list. length ((\<lambda>d. replicate 32 (0 :: 8 word)) d) = 32"
    by simp
  have x: "Sprintf_x (replicate 32 0) = concat (replicate 32 ''00'')"
    by (simp add: Sprintf_x_def hexByte_def)
  from Hash_deterministic_hex [OF h, where ?'a = unit
      and Marshal = "\<lambda>l. Inr (map of_char (Filter l)) :: unit error + 8 word list"
      and ?l1.0 = "NewListOptions 0 ''a''" and ?l2.0 = "NewListOptions 2 ''a''"
      and l = "NewListOptions 0 ''a''", unfolded x]
  show ?thesis
    by (auto simp: NewListOptions_def)
qed

subsection \<open>Applying the options to a request\<close>

lemma applyListOptionsToRequest_queryParamsOf:
  "queryParamsOf (Some l) = (Inl e :: 'e error + _) \<Longrightarrow>
   applyListOptionsToRequest (Some l) req = (Inl (FailedToApplyListOptions e) :: 'e error + _)"
  "queryParamsOf (Some l) = (Inr params :: 'e error + _) \<Longrightarrow>
   \<exists>req'. applyListOptionsToRequest (Some l) req = (Inr req' :: 'e error + _)"
  by (auto simp: queryParamsOf_def applyListOptionsToRequest_def Let_def
      split: option.splits sum.splits)

text \<open>
  C7, the options it covers. The claim speaks of every \<^verbatim>\<open>ListOptions\<close> with a filter that
  is not empty. When \<^verbatim>\<open>QueryParams\<close> is not a struct, here the integer 5,
  \<^verbatim>\<open>applyListOptionsToRequest\<close> returns the flattener's error before it comes to the
  filter, and sets no header.
\<close>

theorem applyListOptionsToRequest_filter_header_counterexample:
  "applyListOptionsToRequest
     (Some \<lparr>PageOptions = None, PageSize = 0, Filter = ''label:myserver'',
            QueryParams = Some (VInt KInt ''int'' 5)\<rparr>)
     emptyRequest =
   (Inl (FailedToApplyListOptions (ExpectedStruct ''int'')) :: unit error + Request)"
  by (simp add: applyListOptionsToRequest_def)

text \<open>
  C7, as amended. If \<^verbatim>\<open>QueryParams\<close> is given and does not flatten, applying the options
  fails with the flattener's error, wrapped. Otherwise it succeeds, and the request's
  header \<^verbatim>\<open>X-Filter\<close> is set to the filter if the filter is not empty, and the headers are
  left as they were if it is empty. The query parameters do not depend on the filter: with
  any other filter in the same options they come out the same.
\<close>

theorem applyListOptionsToRequest_filter_header:
  "case queryParamsOf (Some l) of
     Inl e \<Rightarrow>
       applyListOptionsToRequest (Some l) req = (Inl (FailedToApplyListOptions e) :: 'e error + _)
   | Inr params \<Rightarrow>
       \<exists>req'. applyListOptionsToRequest (Some l) req = (Inr req' :: 'e error + _) \<and>
         Header req' =
           (if Filter l \<noteq> [] then (Header req)(''X-Filter'' \<mapsto> Filter l) else Header req) \<and>
         (\<forall>f. \<exists>req''. applyListOptionsToRequest (Some (l\<lparr>Filter := f\<rparr>)) req =
                  (Inr req'' :: 'e error + _) \<and> QueryParam req'' = QueryParam req')"
  by (auto simp: queryParamsOf_def applyListOptionsToRequest_def Let_def
      split: option.splits sum.splits)

theorem applyListOptionsToRequest_filter_header_witness:
  "(queryParamsOf
     (Some \<lparr>PageOptions = None, PageSize = 0, Filter = ''label:myserver'', QueryParams = None\<rparr>)
      :: unit error + _) = Inr Map.empty \<and>
   applyListOptionsToRequest
     (Some \<lparr>PageOptions = None, PageSize = 0, Filter = ''label:myserver'', QueryParams = None\<rparr>)
     emptyRequest =
     (Inr \<lparr>QueryParam = Map.empty, Header = [''X-Filter'' \<mapsto> ''label:myserver'']\<rparr>
        :: unit error + _)"
  using applyListOptionsToRequest_filter_header
    [where ?'e = unit
      and l = "\<lparr>PageOptions = None, PageSize = 0, Filter = ''label:myserver'', QueryParams = None\<rparr>"
      and req = emptyRequest]
  by (simp add: applyListOptionsToRequest_def queryParamsOf_def emptyRequest_def)

subsection \<open>The paged fetch\<close>

lemma cells_assign [simp]: "cells (assign a v h) = (cells h)(a := v)"
  by (simp add: assign_def)

lemma next_free_assign [simp]: "next_free (assign a v h) = next_free h"
  by (simp add: assign_def)

lemma assign_assign [simp]: "assign a v (assign a w h) = assign a v h"
  by (simp add: assign_def)

lemma assign_same: "cells h a = v \<Longrightarrow> assign a v h = h"
  by (auto simp: assign_def)

lemma applyListOptionsToRequest_no_page:
  assumes "case PageOptions l of None \<Rightarrow> True | Some po \<Rightarrow> Page po \<le> 0"
  shows "(applyListOptionsToRequest (Some l) req :: 'e error + _) =
         applyListOptionsToRequest (Some (l\<lparr>PageOptions := None\<rparr>)) req"
  using assms
  by (auto simp: applyListOptionsToRequest_def Let_def split: option.splits sum.splits)

lemma applyListOptionsToRequest_page:
  assumes "PageOptions l = Some po" and "Page po > 0"
    and "applyListOptionsToRequest (Some (l\<lparr>PageOptions := None\<rparr>)) req = (Inr req1 :: 'e error + _)"
  shows "applyListOptionsToRequest (Some l) req = (Inr (pageRequest req1 (Page po)) :: 'e error + _)"
proof -
  have tw: "\<And>m :: string \<rightharpoonup> string. \<And>x y.
      (m(''page'' \<mapsto> x))(''page_size'' \<mapsto> y) = (m(''page_size'' \<mapsto> y))(''page'' \<mapsto> x)"
    by (rule fun_upd_twist) simp
  show ?thesis
    using assms
    by (auto simp: applyListOptionsToRequest_def Let_def pageRequest_def tw
        split: option.splits sum.splits if_splits)
qed

lemma listHelper_single:
  assumes "PageOptions (cells h a) = Some po" and "Page po \<noteq> 0"
  shows "listHelper pager req0 (Some a) ids h s =
     (case applyListOptionsToRequest (Some (cells h a)) req0 of
        Inl err \<Rightarrow> (Some err, h, s)
      | Inr req \<Rightarrow>
          (case castResult pager req (endpoint pager ids) s of
             (Inl err, s1) \<Rightarrow> (Some err, h, s1)
           | (Inr (pages, results), s1) \<Rightarrow>
               (None,
                assign a ((cells h a)\<lparr>PageOptions := Some (po\<lparr>Results := results, Pages := pages\<rparr>)\<rparr>) h,
                s1)))"
proof -
  have same: "assign a ((cells h a)\<lparr>PageOptions := Some po\<rparr>) h = h"
    using assms(1) by (intro assign_same) simp
  show ?thesis
    using assms
    by (subst listHelper.simps) (simp add: same split: sum.splits prod.splits)
qed

lemma castResult_capability [simp]:
  "castResult (capability ep server) = decodePage server"
  by (simp add: capability_def)

lemma endpoint_capability [simp]:
  "endpoint (capability ep server) = ep"
  by (simp add: capability_def)

lemma pageLoop_walkPages:
  assumes "cells h a = lo\<lparr>PageOptions := Some po\<rparr>"
    and "applyListOptionsToRequest (Some (lo\<lparr>PageOptions := None\<rparr>)) req0 = (Inr req1 :: 'e error + _)"
    and "1 \<le> k"
  shows "pageLoop (capability ep server) req0 a ids k pages h s =
     (case walkPages server (ep ids) req1 [k..pages] po s of
        (err :: 'e error option, po', s') \<Rightarrow> (err, assign a (lo\<lparr>PageOptions := Some po'\<rparr>) h, s'))"
  using assms
proof (induction "nat (pages + 1 - k)" arbitrary: k po h s)
  case 0
  then have "pages < k" by simp
  then have "[k..pages] = []" by simp
  with 0 \<open>pages < k\<close> show ?case
    by (subst pageLoop.simps) (simp add: assign_same)
next
  case (Suc n)
  then have le: "k \<le> pages" by simp
  then have up: "[k..pages] = k # [k + 1..pages]" by (simp add: upto_rec1)
  let ?hk = "assign a ((cells h a)\<lparr>PageOptions := Some (po\<lparr>Page := k\<rparr>)\<rparr>) h"
  let ?req = "pageRequest req1 k"
  have po: "PageOptions (cells h a) = Some po" using Suc.prems(1) by simp
  have pk: "PageOptions (cells ?hk a) = Some (po\<lparr>Page := k\<rparr>)" by simp
  have "applyListOptionsToRequest (Some (cells ?hk a)) req0 =
          (Inr (pageRequest req1 (Page (po\<lparr>Page := k\<rparr>))) :: 'e error + _)"
    using Suc.prems by (intro applyListOptionsToRequest_page) auto
  then have ap: "applyListOptionsToRequest (Some (cells ?hk a)) req0 = (Inr ?req :: 'e error + _)"
    by simp
  have single: "listHelper (capability ep server) req0 (Some a) ids ?hk s =
     (case decodePage server ?req (ep ids) s of
        (Inl err, s1) \<Rightarrow> (Some err, ?hk, s1)
      | (Inr (pages, results), s1) \<Rightarrow>
          (None,
           assign a ((cells ?hk a)\<lparr>PageOptions := Some (po\<lparr>Page := k, Results := results, Pages := pages\<rparr>)\<rparr>) ?hk,
           s1))"
    using Suc.prems(3) ap listHelper_single [OF pk, of "capability ep server" req0 ids s]
    by simp
  show ?case
  proof (cases "server (sent s) ?req (ep ids)")
    case (Inl err)
    with le po single up Suc.prems(1) show ?thesis
      by (subst pageLoop.simps) (simp add: decodePage_def)
  next
    case (Inr r)
    obtain items pgs res where r: "r = (items, pgs, res)" by (cases r)
    let ?po1 = "po\<lparr>Page := k, Results := res, Pages := pgs\<rparr>"
    let ?h1 = "assign a (lo\<lparr>PageOptions := Some ?po1\<rparr>) h"
    let ?s1 = "s\<lparr>sent := sent s @ [(?req, ep ids)], acc := acc s @ items\<rparr>"
    have n: "n = nat (pages + 1 - (k + 1))" using Suc.hyps(2) by simp
    have c1: "cells ?h1 a = lo\<lparr>PageOptions := Some ?po1\<rparr>" by simp
    have k1: "1 \<le> k + 1" using Suc.prems(3) by simp
    note IH = Suc.hyps(1) [OF n c1 Suc.prems(2) k1, of s]
    have step: "pageLoop (capability ep server) req0 a ids k pages h s =
                pageLoop (capability ep server) req0 a ids (k + 1) pages ?h1 ?s1"
      using le po single Inr r Suc.prems(1)
      by (subst pageLoop.simps) (simp add: decodePage_def)
    show ?thesis
      unfolding step up
      using Inr r by (simp add: Suc.hyps(1) [OF n c1 Suc.prems(2) k1])
  qed
qed

lemma listHelper_fetch_all_Some:
  assumes sentinel: "fetchAllSentinel (Some a) h"
  shows "listHelper (capability ep (server :: ('x, 'e) server)) req0 (Some a) ids h s =
    (case applyListOptionsToRequest (Some (cells h a)) req0 of
       Inl err \<Rightarrow> (Some err, h, s)
     | Inr req1 \<Rightarrow>
         (case server (sent s) req1 (ep ids) of
            Inl err \<Rightarrow> (Some err, h, s\<lparr>sent := sent s @ [(req1, ep ids)]\<rparr>)
          | Inr (items, pages, results) \<Rightarrow>
              (case walkPages server (ep ids) req1 [2..pages]
                      (case PageOptions (cells h a) of
                         None \<Rightarrow> \<lparr>Page = 0, Pages = 0, Results = 0\<rparr>
                       | Some po \<Rightarrow> po)
                      (s\<lparr>sent := sent s @ [(req1, ep ids)], acc := acc s @ items\<rparr>) of
                 (Some err, po', s') \<Rightarrow>
                   (Some err, assign a ((cells h a)\<lparr>PageOptions := Some po'\<rparr>) h, s')
               | (None, po', s') \<Rightarrow>
                   (None,
                    assign a ((cells h a)\<lparr>PageOptions :=
                       Some (po'\<lparr>Results := results, Pages := pages\<rparr>)\<rparr>) h,
                    s'))))"
proof (cases "applyListOptionsToRequest (Some (cells h a)) req0 :: 'e error + Request")
  case (Inl err)
  then show ?thesis by (subst listHelper.simps) simp
next
  case (Inr req1)
  note ap = Inr
  show ?thesis
  proof (cases "server (sent s) req1 (ep ids)")
    case (Inl err)
    with ap show ?thesis by (subst listHelper.simps) (simp add: decodePage_def)
  next
    case (Inr r)
    obtain items pages results where r: "r = (items, pages, results)" by (cases r)
    let ?po0 = "case PageOptions (cells h a) of
                  None \<Rightarrow> \<lparr>Page = 0, Pages = 0, Results = 0\<rparr> | Some po \<Rightarrow> po"
    let ?h2 = "assign a ((cells h a)\<lparr>PageOptions := Some ?po0\<rparr>) h"
    let ?s1 = "s\<lparr>sent := sent s @ [(req1, ep ids)], acc := acc s @ items\<rparr>"
    have p0: "Page ?po0 = 0"
      using sentinel by (simp add: fetchAllSentinel_def split: option.splits)
    have np: "case PageOptions (cells h a) of None \<Rightarrow> True | Some po \<Rightarrow> Page po \<le> 0"
      using sentinel by (simp add: fetchAllSentinel_def split: option.splits)
    have base: "applyListOptionsToRequest (Some ((cells h a)\<lparr>PageOptions := None\<rparr>)) req0 =
                  (Inr req1 :: 'e error + Request)"
      using ap applyListOptionsToRequest_no_page [OF np, of req0, where ?'e = 'e] by simp
    have c2: "cells ?h2 a = (cells h a)\<lparr>PageOptions := Some ?po0\<rparr>" by simp
    note loop = pageLoop_walkPages [OF c2 base, of 2 ep server ids pages ?s1]
    have step: "listHelper (capability ep server) req0 (Some a) ids h s =
      (case pageLoop (capability ep server) req0 a ids 2 pages ?h2 ?s1 of
         (Some err, h3, s3) \<Rightarrow> (Some err, h3, s3)
       | (None, h3, s3) \<Rightarrow>
           (case PageOptions (cells h3 a) of
              None \<Rightarrow> (Some NilPointerDereference, h3, s3)
            | Some po3 \<Rightarrow>
                (None,
                 assign a ((cells h3 a)\<lparr>PageOptions :=
                    Some (po3\<lparr>Results := results, Pages := pages\<rparr>)\<rparr>) h3,
                 s3)))"
      using ap Inr r p0
      by (subst listHelper.simps) (simp add: decodePage_def)
    show ?thesis
      unfolding step
      using ap Inr r
      by (subst loop) (simp_all split: prod.splits option.splits)
  qed
qed

lemma listHelper_fetch_all_None:
  "listHelper (capability ep (server :: ('x, 'e) server)) req0 None ids h s =
    (case server (sent s) req0 (ep ids) of
       Inl err \<Rightarrow> (Some err, h, s\<lparr>sent := sent s @ [(req0, ep ids)]\<rparr>)
     | Inr (items, pages, results) \<Rightarrow>
         (case walkPages server (ep ids) req0 [2..pages] \<lparr>Page = 0, Pages = 0, Results = 0\<rparr>
                 (s\<lparr>sent := sent s @ [(req0, ep ids)], acc := acc s @ items\<rparr>) of
            (Some err, po', s') \<Rightarrow>
              (Some err,
               h\<lparr>cells := (cells h)(next_free h :=
                     \<lparr>PageOptions = Some po', PageSize = 0, Filter = [], QueryParams = None\<rparr>),
                  next_free := Suc (next_free h)\<rparr>,
               s')
          | (None, po', s') \<Rightarrow>
              (None,
               h\<lparr>cells := (cells h)(next_free h :=
                     \<lparr>PageOptions = Some (po'\<lparr>Results := results, Pages := pages\<rparr>),
                      PageSize = 0, Filter = [], QueryParams = None\<rparr>),
                  next_free := Suc (next_free h)\<rparr>,
               s')))"
proof (cases "server (sent s) req0 (ep ids)")
  case (Inl err)
  then show ?thesis
    by (subst listHelper.simps) (simp add: decodePage_def applyListOptionsToRequest_def)
next
  case (Inr r)
  obtain items pages results where r: "r = (items, pages, results)" by (cases r)
  let ?a = "next_free h"
  let ?po0 = "\<lparr>Page = 0, Pages = 0, Results = 0\<rparr>"
  let ?lo = "\<lparr>PageOptions = Some ?po0, PageSize = 0, Filter = [], QueryParams = None\<rparr>"
  let ?h1 = "h\<lparr>cells := (cells h)(?a := ?lo), next_free := Suc ?a\<rparr>"
  let ?h2 = "assign ?a ((cells ?h1 ?a)\<lparr>PageOptions := Some ?po0\<rparr>) ?h1"
  let ?s1 = "s\<lparr>sent := sent s @ [(req0, ep ids)], acc := acc s @ items\<rparr>"
  have base: "applyListOptionsToRequest (Some (?lo\<lparr>PageOptions := None\<rparr>)) req0 =
                (Inr req0 :: 'e error + Request)"
    by (simp add: applyListOptionsToRequest_def)
  have c2: "cells ?h2 ?a = ?lo\<lparr>PageOptions := Some ?po0\<rparr>" by simp
  note loop = pageLoop_walkPages [OF c2 base, of 2 ep server ids pages ?s1]
  have step: "listHelper (capability ep server) req0 None ids h s =
    (case pageLoop (capability ep server) req0 ?a ids 2 pages ?h2 ?s1 of
       (Some err, h3, s3) \<Rightarrow> (Some err, h3, s3)
     | (None, h3, s3) \<Rightarrow>
         (case PageOptions (cells h3 ?a) of
            None \<Rightarrow> (Some NilPointerDereference, h3, s3)
          | Some po3 \<Rightarrow>
              (None,
               assign ?a ((cells h3 ?a)\<lparr>PageOptions :=
                  Some (po3\<lparr>Results := results, Pages := pages\<rparr>)\<rparr>) h3,
               s3)))"
    using Inr r
    by (subst listHelper.simps) (simp add: decodePage_def applyListOptionsToRequest_def alloc_def)
  show ?thesis
    unfolding step
    using Inr r
    by (subst loop) (simp_all add: assign_def split: prod.splits option.splits)
qed

lemma walkPages_success:
  "walkPages server url req ks po s = (None, po', s') \<Longrightarrow>
   sent s' = sent s @ map (\<lambda>k. (pageRequest req k, url)) ks \<and>
   acc s' = acc s @ concat (map itemsOf (replies server url (sent s) (map (pageRequest req) ks))) \<and>
   (if ks = [] then po' = po else Page po' = last ks)"
proof (induction ks arbitrary: po s)
  case Nil
  then show ?case by simp
next
  case (Cons k ks)
  from Cons.prems obtain items pages results where
    r: "server (sent s) (pageRequest req k) url = Inr (items, pages, results)" and
    w: "walkPages server url req ks (po\<lparr>Page := k, Results := results, Pages := pages\<rparr>)
          (s\<lparr>sent := sent s @ [(pageRequest req k, url)], acc := acc s @ items\<rparr>) = (None, po', s')"
    by (auto split: sum.splits)
  from Cons.IH [OF w] r show ?case
    by (cases ks) auto
qed

lemma walkPages_failure:
  "walkPages server url req ks po s = (Some err, po', s') \<Longrightarrow>
   \<exists>n. n < length ks \<and>
     replies server url (sent s) (map (pageRequest req) ks) ! n = Inl err \<and>
     sent s' = sent s @ map (\<lambda>k. (pageRequest req k, url)) (take (Suc n) ks) \<and>
     acc s' = acc s @
       concat (map itemsOf (take n (replies server url (sent s) (map (pageRequest req) ks)))) \<and>
     Page po' = ks ! n \<and>
     (if n = 0 then Pages po' = Pages po \<and> Results po' = Results po
      else \<exists>items. replies server url (sent s) (map (pageRequest req) ks) ! (n - 1) =
             Inr (items, Pages po', Results po'))"
proof (induction ks arbitrary: po s)
  case Nil
  then show ?case by simp
next
  case (Cons k ks)
  show ?case
  proof (cases "server (sent s) (pageRequest req k) url")
    case (Inl e)
    with Cons.prems have "err = e" "po' = po\<lparr>Page := k\<rparr>"
      "s' = s\<lparr>sent := sent s @ [(pageRequest req k, url)]\<rparr>"
      by auto
    with Inl show ?thesis
      by (intro exI [of _ 0]) simp
  next
    case (Inr r)
    obtain items pages results where r: "r = (items, pages, results)" by (cases r)
    let ?po1 = "po\<lparr>Page := k, Results := results, Pages := pages\<rparr>"
    let ?s1 = "s\<lparr>sent := sent s @ [(pageRequest req k, url)], acc := acc s @ items\<rparr>"
    from Cons.prems Inr r have w: "walkPages server url req ks ?po1 ?s1 = (Some err, po', s')"
      by simp
    from Cons.IH [OF w] obtain n where n: "n < length ks"
      and e: "replies server url (sent ?s1) (map (pageRequest req) ks) ! n = Inl err"
      and se: "sent s' = sent ?s1 @ map (\<lambda>k. (pageRequest req k, url)) (take (Suc n) ks)"
      and ac: "acc s' = acc ?s1 @
         concat (map itemsOf (take n (replies server url (sent ?s1) (map (pageRequest req) ks))))"
      and pg: "Page po' = ks ! n"
      and tot: "if n = 0 then Pages po' = Pages ?po1 \<and> Results po' = Results ?po1
         else \<exists>items. replies server url (sent ?s1) (map (pageRequest req) ks) ! (n - 1) =
             Inr (items, Pages po', Results po')"
      by blast
    show ?thesis
    proof (intro exI [of _ "Suc n"] conjI)
      show "Suc n < length (k # ks)" using n by simp
      show "replies server url (sent s) (map (pageRequest req) (k # ks)) ! Suc n = Inl err"
        using e by simp
      show "sent s' = sent s @ map (\<lambda>k. (pageRequest req k, url)) (take (Suc (Suc n)) (k # ks))"
        using se by simp
      show "acc s' = acc s @ concat (map itemsOf
              (take (Suc n) (replies server url (sent s) (map (pageRequest req) (k # ks)))))"
        using ac Inr r by simp
      show "Page po' = (k # ks) ! Suc n" using pg by simp
      show "if Suc n = 0 then Pages po' = Pages po \<and> Results po' = Results po
         else \<exists>items. replies server url (sent s) (map (pageRequest req) (k # ks)) ! (Suc n - 1) =
             Inr (items, Pages po', Results po')"
      proof (cases n)
        case 0
        with tot Inr r show ?thesis by simp
      next
        case (Suc m)
        with tot show ?thesis by simp
      qed
    qed
  qed
qed

lemmas example_defs =
  exampleServer_def failingServer_def exampleEndpoint_def emptyRequest_def emptyPager_def
  exampleStore_def NewListOptions_def pageRequest_def Itoa_def FormatInt_def digits.simps
  applyListOptionsToRequest_def fetchAllSentinel_def

lemma length_pages: "Suc (length [2..pages]) = (if pages \<le> 1 then 1 else nat pages)"
  by (auto simp: length_upto)

lemma fetch_all_requests:
  "fetchAllSentinel opts h \<Longrightarrow>
   listHelper (capability ep (server :: ('x, 'e) server)) req0 opts ids h s = (r, h', s') \<Longrightarrow>
   applyListOptionsToRequest (map_option (cells h) opts) req0 = (Inr req1 :: 'e error + _) \<Longrightarrow>
   server (sent s) req1 (ep ids) = Inr (items, pages, results) \<Longrightarrow>
   \<exists>po0 po'.
     walkPages server (ep ids) req1 [2..pages] po0
       (s\<lparr>sent := sent s @ [(req1, ep ids)], acc := acc s @ items\<rparr>) = (r, po', s') \<and>
     (case opts of
        None \<Rightarrow> po0 = \<lparr>Page = 0, Pages = 0, Results = 0\<rparr>
      | Some a \<Rightarrow> po0 = (case PageOptions (cells h a) of
                          None \<Rightarrow> \<lparr>Page = 0, Pages = 0, Results = 0\<rparr> | Some po \<Rightarrow> po)) \<and>
     h' = (case opts of
             None \<Rightarrow>
               h\<lparr>cells := (cells h)(next_free h :=
                     \<lparr>PageOptions = Some (if r = None then po'\<lparr>Results := results, Pages := pages\<rparr> else po'),
                      PageSize = 0, Filter = [], QueryParams = None\<rparr>),
                  next_free := Suc (next_free h)\<rparr>
           | Some a \<Rightarrow>
               assign a ((cells h a)\<lparr>PageOptions :=
                  Some (if r = None then po'\<lparr>Results := results, Pages := pages\<rparr> else po')\<rparr>) h)"
proof (cases opts)
  case None
  assume "applyListOptionsToRequest (map_option (cells h) opts) req0 = (Inr req1 :: 'e error + _)"
  with None have req1: "req1 = req0" by (simp add: applyListOptionsToRequest_def)
  assume "listHelper (capability ep server) req0 opts ids h s = (r, h', s')"
    and "server (sent s) req1 (ep ids) = Inr (items, pages, results)"
  with None req1 show ?thesis
    by (auto simp: listHelper_fetch_all_None split: prod.splits option.splits)
next
  case (Some a)
  assume "fetchAllSentinel opts h"
    and "listHelper (capability ep server) req0 opts ids h s = (r, h', s')"
    and "applyListOptionsToRequest (map_option (cells h) opts) req0 = (Inr req1 :: 'e error + _)"
    and "server (sent s) req1 (ep ids) = Inr (items, pages, results)"
  with Some show ?thesis
    by (auto simp: listHelper_fetch_all_Some split: prod.splits option.splits)
qed

lemma fetch_all_first_reply:
  "fetchAllSentinel opts h \<Longrightarrow>
   listHelper (capability ep (server :: ('x, 'e) server)) req0 opts ids h s = (None, h', s') \<Longrightarrow>
   \<exists>req1 items pages results.
     applyListOptionsToRequest (map_option (cells h) opts) req0 = (Inr req1 :: 'e error + _) \<and>
     server (sent s) req1 (ep ids) = Inr (items, pages, results)"
proof (cases opts)
  case None
  assume "listHelper (capability ep server) req0 opts ids h s = (None, h', s')"
  with None show ?thesis
    by (auto simp: listHelper_fetch_all_None applyListOptionsToRequest_def
        split: prod.splits option.splits sum.splits)
next
  case (Some a)
  assume "fetchAllSentinel opts h"
    and "listHelper (capability ep server) req0 opts ids h s = (None, h', s')"
  with Some show ?thesis
    by (auto simp: listHelper_fetch_all_Some split: prod.splits option.splits sum.splits)
qed

lemma example_run:
  "listHelper (capability exampleEndpoint exampleServer) emptyRequest (Some 0) [] exampleStore
     emptyPager =
   (None,
    assign 0 \<lparr>PageOptions = Some \<lparr>Page = 3, Pages = 3, Results = 6\<rparr>, PageSize = 0,
               Filter = [], QueryParams = None\<rparr> exampleStore,
    \<lparr>sent = [(emptyRequest, ''instances''), (pageRequest emptyRequest 2, ''instances''),
             (pageRequest emptyRequest 3, ''instances'')],
     acc = [1, 2, 3, 4, 5, 6]\<rparr>)"
  by (simp add: listHelper_fetch_all_Some example_defs)

text \<open>
  C2, the total it names. The claim says that after a fetch of all pages the options'
  total of results is the one the last page reported. On the example collection the call
  succeeds, the third and last page reports seven results, and the options are left with
  six, the total reported with the first page.
\<close>

theorem listHelper_last_page_total_counterexample:
  "fst (listHelper (capability exampleEndpoint exampleServer) emptyRequest (Some 0) []
          exampleStore emptyPager) = None \<and>
   map_option Results (PageOptions (cells (fst (snd
     (listHelper (capability exampleEndpoint exampleServer) emptyRequest (Some 0) []
          exampleStore emptyPager))) 0)) = Some 6 \<and>
   exampleServer [(emptyRequest, ''instances''), (pageRequest emptyRequest 2, ''instances'')]
     (pageRequest emptyRequest 3) ''instances'' = Inr ([5, 6], 3, 7)"
  by (simp add: example_run) (simp add: example_defs)

text \<open>
  C2, as amended. After a successful fetch of all pages through a pointer to the caller's
  options, the page window of the options holds the number of pages and the total of
  results that the server reported with the first page.
\<close>

theorem listHelper_writes_back_first_totals:
  assumes "fetchAllSentinel (Some a) h"
    and "listHelper (capability ep (server :: ('x, 'e) server)) req0 (Some a) ids h s = (None, h', s')"
  shows "\<exists>req1 items pages results po'.
     applyListOptionsToRequest (Some (cells h a)) req0 = (Inr req1 :: 'e error + _) \<and>
     server (sent s) req1 (ep ids) = Inr (items, pages, results) \<and>
     PageOptions (cells h' a) = Some po' \<and> Pages po' = pages \<and> Results po' = results"
proof -
  from fetch_all_first_reply [OF assms] obtain req1 items pages results where
    ap: "applyListOptionsToRequest (Some (cells h a)) req0 = (Inr req1 :: 'e error + _)" and
    re: "server (sent s) req1 (ep ids) = Inr (items, pages, results)"
    by auto
  from ap have "applyListOptionsToRequest (map_option (cells h) (Some a)) req0 =
      (Inr req1 :: 'e error + _)"
    by simp
  from fetch_all_requests [OF assms this re] obtain po' where
    "h' = assign a ((cells h a)\<lparr>PageOptions := Some (po'\<lparr>Results := results, Pages := pages\<rparr>)\<rparr>) h"
    by auto
  then have "PageOptions (cells h' a) = Some (po'\<lparr>Results := results, Pages := pages\<rparr>)"
    by simp
  with ap re show ?thesis by simp
qed

theorem listHelper_writes_back_first_totals_witness:
  "fetchAllSentinel (Some 0) exampleStore \<and>
   PageOptions (cells (assign 0 \<lparr>PageOptions = Some \<lparr>Page = 3, Pages = 3, Results = 6\<rparr>,
       PageSize = 0, Filter = [], QueryParams = None\<rparr> exampleStore) 0) =
     Some \<lparr>Page = 3, Pages = 3, Results = 6\<rparr> \<and>
   exampleServer [] emptyRequest ''instances'' = Inr ([1, 2], 3, 6)"
proof -
  have a: "fetchAllSentinel (Some 0) exampleStore"
    by (simp add: example_defs)
  from listHelper_writes_back_first_totals [OF a example_run] a show ?thesis
    by (simp add: example_defs)
qed

lemma last_pages: "2 \<le> pages \<Longrightarrow> last [2..pages] = pages"
  by (simp add: upto_rec2)

lemma listHelper_single_sent:
  assumes "PageOptions (cells h a) = Some po" and "Page po \<noteq> 0"
    and "applyListOptionsToRequest (Some (cells h a)) req0 = (Inr req :: 'e error + _)"
  shows "sent (snd (snd (listHelper (capability ep (server :: ('x, 'e) server)) req0 (Some a) ids h s))) =
         sent s @ [(req, ep ids)]"
  by (simp add: listHelper_single [OF assms(1,2)] assms(3) decodePage_def
      split: sum.splits prod.splits)

text \<open>
  C9. A successful fetch of all pages through a pointer to the caller's options, on a
  collection whose first reply reports two pages or more, leaves the page of the options
  at that number of pages. Calling \<open>listHelper\<close> again with the options as they are now
  issues one request, for that last page.
\<close>

theorem listHelper_leaves_last_page:
  assumes "fetchAllSentinel (Some a) h"
    and "listHelper (capability ep (server :: ('x, 'e) server)) req0 (Some a) ids h s = (None, h', s')"
    and "applyListOptionsToRequest (Some (cells h a)) req0 = (Inr req1 :: 'e error + _)"
    and "server (sent s) req1 (ep ids) = Inr (items, pages, results)"
    and "2 \<le> pages"
  shows "map_option Page (PageOptions (cells h' a)) = Some pages \<and>
         sent (snd (snd (listHelper (capability ep server) req0 (Some a) ids h' s'))) =
           sent s' @ [(pageRequest req1 pages, ep ids)]"
proof -
  from assms(3) have ap: "applyListOptionsToRequest (map_option (cells h) (Some a)) req0 =
      (Inr req1 :: 'e error + _)"
    by simp
  from fetch_all_requests [OF assms(1,2) ap assms(4)] obtain po0 po' where
    w: "walkPages server (ep ids) req1 [2..pages] po0
          (s\<lparr>sent := sent s @ [(req1, ep ids)], acc := acc s @ items\<rparr>) = (None, po', s')" and
    h': "h' = assign a ((cells h a)\<lparr>PageOptions :=
            Some (po'\<lparr>Results := results, Pages := pages\<rparr>)\<rparr>) h"
    by auto
  from walkPages_success [OF w] assms(5) have pg: "Page po' = pages"
    by (simp add: last_pages)
  let ?po = "po'\<lparr>Results := results, Pages := pages\<rparr>"
  have po: "PageOptions (cells h' a) = Some ?po" using h' by simp
  have ne: "Page ?po \<noteq> 0" and gt: "0 < Page ?po" using pg assms(5) by simp_all
  have np: "case PageOptions (cells h a) of None \<Rightarrow> True | Some po \<Rightarrow> Page po \<le> 0"
    using assms(1) by (simp add: fetchAllSentinel_def split: option.splits)
  have base: "applyListOptionsToRequest (Some ((cells h' a)\<lparr>PageOptions := None\<rparr>)) req0 =
                (Inr req1 :: 'e error + _)"
    using assms(3) applyListOptionsToRequest_no_page [OF np, of req0, where ?'e = 'e] h' by simp
  from applyListOptionsToRequest_page [OF po gt base] pg
  have ap2: "applyListOptionsToRequest (Some (cells h' a)) req0 =
               (Inr (pageRequest req1 pages) :: 'e error + _)"
    by simp
  from listHelper_single_sent [OF po ne ap2] po pg show ?thesis
    by simp
qed

theorem listHelper_leaves_last_page_witness:
  "map_option Page (PageOptions (cells
      (assign 0 \<lparr>PageOptions = Some \<lparr>Page = 3, Pages = 3, Results = 6\<rparr>, PageSize = 0,
                 Filter = [], QueryParams = None\<rparr> exampleStore) 0)) = Some 3 \<and>
   sent (snd (snd (listHelper (capability exampleEndpoint exampleServer) emptyRequest (Some 0) []
      (assign 0 \<lparr>PageOptions = Some \<lparr>Page = 3, Pages = 3, Results = 6\<rparr>, PageSize = 0,
                 Filter = [], QueryParams = None\<rparr> exampleStore)
      \<lparr>sent = [(emptyRequest, ''instances''), (pageRequest emptyRequest 2, ''instances''),
               (pageRequest emptyRequest 3, ''instances'')],
       acc = [1, 2, 3, 4, 5, 6]\<rparr>))) =
   [(emptyRequest, ''instances''), (pageRequest emptyRequest 2, ''instances''),
    (pageRequest emptyRequest 3, ''instances''), (pageRequest emptyRequest 3, ''instances'')]"
proof -
  have a: "fetchAllSentinel (Some 0) exampleStore"
    by (simp add: example_defs)
  have c: "applyListOptionsToRequest (Some (cells exampleStore 0)) emptyRequest =
             (Inr emptyRequest :: unit error + _)"
    by (simp add: example_defs)
  have d: "exampleServer (sent emptyPager) emptyRequest (exampleEndpoint []) = Inr ([1, 2], 3, 6)"
    by (simp add: example_defs)
  have e: "(2 :: int) \<le> 3" by simp
  from listHelper_leaves_last_page [OF a example_run c d e] show ?thesis
    by (simp add: exampleEndpoint_def)
qed



lemma listHelper_first_page_failure:
  assumes ap: "applyListOptionsToRequest (map_option (cells h) opts) req0 = (Inr req1 :: 'e error + _)"
    and re: "server (sent s) req1 (ep ids) = Inl e"
  shows "listHelper (capability ep (server :: ('x, 'e) server)) req0 opts ids h s =
         (Some e, h, s\<lparr>sent := sent s @ [(req1, ep ids)]\<rparr>)"
  using assms
  by (subst listHelper.simps) (simp add: decodePage_def)

lemma listHelper_failure_sentinel:
  assumes ap: "applyListOptionsToRequest (map_option (cells h) opts) req0 = (Inr req1 :: 'e error + _)"
    and re: "server (sent s) req1 (ep ids) = Inr (items, pages, results)"
    and run: "listHelper (capability ep (server :: ('x, 'e) server)) req0 opts ids h s = (Some err, h', s')"
  shows "fetchAllSentinel opts h"
proof (rule ccontr)
  assume "\<not> fetchAllSentinel opts h"
  then obtain a po where "opts = Some a" "PageOptions (cells h a) = Some po" "Page po \<noteq> 0"
    by (auto simp: fetchAllSentinel_def split: option.splits)
  with ap re run show False
    by (simp add: listHelper_single decodePage_def)
qed

text \<open>
  C3, the options it covers. The claim speaks of every \<^verbatim>\<open>ListOptions\<close> whose page is
  positive. With the options of \<^verbatim>\<open>NewListOptions(2, "")\<close> and \<^verbatim>\<open>QueryParams\<close> set to the
  integer 5, \<open>listHelper\<close> returns the flattener's error: it issues no request and
  writes no totals.
\<close>

theorem listHelper_single_page_counterexample:
  "listHelper (capability exampleEndpoint exampleServer) emptyRequest (Some 0) []
     (assign 0 ((NewListOptions 2 [])\<lparr>QueryParams := Some (VInt KInt ''int'' 5)\<rparr>) exampleStore)
     emptyPager =
   (Some (FailedToApplyListOptions (ExpectedStruct ''int'')),
    assign 0 ((NewListOptions 2 [])\<lparr>QueryParams := Some (VInt KInt ''int'' 5)\<rparr>) exampleStore,
    emptyPager)"
  by (subst listHelper.simps) (simp add: applyListOptionsToRequest_def NewListOptions_def)

text \<open>
  C3, as amended. The options point to an object with a page window whose page is positive.
  If \<^verbatim>\<open>QueryParams\<close> is given and does not flatten, \<open>listHelper\<close> returns the
  flattener's error, wrapped, and leaves the store and the capability as they were.
  Otherwise it issues one request and no other; the request carries the query parameter
  \<^verbatim>\<open>page\<close> with the page number in decimal. If the server answers with an error, that
  error is returned and the store is left as it was; if it answers with a page, the totals
  of the answer are written to the page window and the page's items are appended to the
  accumulator.
\<close>

theorem listHelper_single_page:
  fixes server :: "('x, 'e) server"
  assumes "PageOptions (cells h a) = Some po" and "0 < Page po"
  shows "case queryParamsOf (Some (cells h a)) of
      Inl e \<Rightarrow>
        listHelper (capability ep server) req0 (Some a) ids h s =
          (Some (FailedToApplyListOptions e :: 'e error), h, s)
    | Inr params \<Rightarrow>
        \<exists>req. applyListOptionsToRequest (Some (cells h a)) req0 = (Inr req :: 'e error + _) \<and>
          QueryParam req ''page'' = Some (Itoa (Page po)) \<and>
          listHelper (capability ep server) req0 (Some a) ids h s =
            (case server (sent s) req (ep ids) of
               Inl err \<Rightarrow> (Some err, h, s\<lparr>sent := sent s @ [(req, ep ids)]\<rparr>)
             | Inr (items, pages, results) \<Rightarrow>
                 (None,
                  assign a ((cells h a)\<lparr>PageOptions :=
                      Some (po\<lparr>Results := results, Pages := pages\<rparr>)\<rparr>) h,
                  s\<lparr>sent := sent s @ [(req, ep ids)], acc := acc s @ items\<rparr>))"
proof (cases "queryParamsOf (Some (cells h a)) :: 'e error + (string \<rightharpoonup> string)")
  case (Inl e)
  from applyListOptionsToRequest_queryParamsOf(1) [OF Inl, of req0] Inl show ?thesis
    by (subst listHelper.simps) simp
next
  case (Inr params)
  from applyListOptionsToRequest_queryParamsOf(2) [OF Inr, of req0] obtain req where
    ap: "applyListOptionsToRequest (Some (cells h a)) req0 = (Inr req :: 'e error + _)"
    by blast
  have ne: "Page po \<noteq> 0" using assms(2) by simp
  have page: "QueryParam req ''page'' = Some (Itoa (Page po))"
    using assms ap
    by (auto simp: applyListOptionsToRequest_def Let_def split: option.splits sum.splits if_splits)
  have "listHelper (capability ep server) req0 (Some a) ids h s =
      (case server (sent s) req (ep ids) of
         Inl err \<Rightarrow> (Some err, h, s\<lparr>sent := sent s @ [(req, ep ids)]\<rparr>)
       | Inr (items, pages, results) \<Rightarrow>
           (None,
            assign a ((cells h a)\<lparr>PageOptions :=
                Some (po\<lparr>Results := results, Pages := pages\<rparr>)\<rparr>) h,
            s\<lparr>sent := sent s @ [(req, ep ids)], acc := acc s @ items\<rparr>))"
    by (simp add: listHelper_single [OF assms(1) ne] ap decodePage_def
        split: sum.splits prod.splits)
  with Inr ap page show ?thesis by simp
qed

theorem listHelper_single_page_witness:
  "PageOptions (cells (assign 0 (NewListOptions 2 []) exampleStore) 0) =
     Some \<lparr>Page = 2, Pages = 0, Results = 0\<rparr> \<and>
   listHelper (capability exampleEndpoint exampleServer) emptyRequest (Some 0) []
     (assign 0 (NewListOptions 2 []) exampleStore) emptyPager =
     (None,
      assign 0 \<lparr>PageOptions = Some \<lparr>Page = 2, Pages = 3, Results = 6\<rparr>, PageSize = 0,
                 Filter = [], QueryParams = None\<rparr> exampleStore,
      \<lparr>sent = [(pageRequest emptyRequest 2, ''instances'')], acc = [3, 4]\<rparr>) \<and>
   QueryParam (pageRequest emptyRequest 2) ''page'' = Some ''2''"
proof -
  let ?h = "assign 0 (NewListOptions 2 []) exampleStore"
  have a: "PageOptions (cells ?h 0) = Some \<lparr>Page = 2, Pages = 0, Results = 0\<rparr>"
    by (simp add: example_defs)
  have b: "0 < Page \<lparr>Page = 2, Pages = 0, Results = 0\<rparr>"
    by simp
  have c: "applyListOptionsToRequest (Some (cells ?h 0)) emptyRequest =
             (Inr (pageRequest emptyRequest 2) :: unit error + _)"
    by (simp add: example_defs)
  have d: "(queryParamsOf (Some (cells ?h 0)) :: unit error + _) = Inr Map.empty"
    by (simp add: example_defs queryParamsOf_def)
  from listHelper_single_page [OF a b, of exampleEndpoint exampleServer emptyRequest "[]" emptyPager]
  have "listHelper (capability exampleEndpoint exampleServer) emptyRequest (Some 0) [] ?h emptyPager =
     (None,
      assign 0 \<lparr>PageOptions = Some \<lparr>Page = 2, Pages = 3, Results = 6\<rparr>, PageSize = 0,
                 Filter = [], QueryParams = None\<rparr> exampleStore,
      \<lparr>sent = [(pageRequest emptyRequest 2, ''instances'')], acc = [3, 4]\<rparr>)"
    unfolding d c by (simp add: example_defs)
  with a show ?thesis
    by (simp add: example_defs)
qed

lemma walkPages_success_pages:
  "walkPages server url req ks po s = (None, po', s') \<Longrightarrow>
   list_all isPage (replies server url (sent s) (map (pageRequest req) ks))"
proof (induction ks arbitrary: po s)
  case Nil
  then show ?case by simp
next
  case (Cons k ks)
  from Cons.prems obtain items pages results where
    r: "server (sent s) (pageRequest req k) url = Inr (items, pages, results)" and
    w: "walkPages server url req ks (po\<lparr>Page := k, Results := results, Pages := pages\<rparr>)
          (s\<lparr>sent := sent s @ [(pageRequest req k, url)], acc := acc s @ items\<rparr>) = (None, po', s')"
    by (auto split: sum.splits)
  from Cons.IH [OF w] r show ?case by simp
qed

lemma walkPages_first_failure:
  "m < length ks \<Longrightarrow>
   replies server url (sent s) (map (pageRequest req) ks) ! m = Inl err \<Longrightarrow>
   list_all isPage (take m (replies server url (sent s) (map (pageRequest req) ks))) \<Longrightarrow>
   \<exists>po'. walkPages server url req ks po s =
       (Some err, po',
        s\<lparr>sent := sent s @ map (\<lambda>k. (pageRequest req k, url)) (take (Suc m) ks),
          acc := acc s @ concat (map itemsOf
            (take m (replies server url (sent s) (map (pageRequest req) ks))))\<rparr>) \<and>
     Page po' = ks ! m \<and>
     (if m = 0 then Pages po' = Pages po \<and> Results po' = Results po
      else \<exists>items. replies server url (sent s) (map (pageRequest req) ks) ! (m - 1) =
             Inr (items, Pages po', Results po'))"
proof (induction ks arbitrary: m po s)
  case Nil
  then show ?case by simp
next
  case (Cons k ks)
  show ?case
  proof (cases m)
    case 0
    with Cons.prems show ?thesis by simp
  next
    case (Suc m')
    with Cons.prems(3) have "isPage (server (sent s) (pageRequest req k) url)" by simp
    then obtain items pages results where
      r: "server (sent s) (pageRequest req k) url = Inr (items, pages, results)"
      by (cases "server (sent s) (pageRequest req k) url") auto
    let ?po1 = "po\<lparr>Page := k, Results := results, Pages := pages\<rparr>"
    let ?s1 = "s\<lparr>sent := sent s @ [(pageRequest req k, url)], acc := acc s @ items\<rparr>"
    let ?rs = "replies server url (sent ?s1) (map (pageRequest req) ks)"
    from Cons.prems Suc have a: "m' < length ks" and b: "?rs ! m' = Inl err"
      and c: "list_all isPage (take m' ?rs)"
      by simp_all
    from Cons.IH [OF a b c, of ?po1] obtain po' where
      w: "walkPages server url req ks ?po1 ?s1 =
       (Some err, po',
        ?s1\<lparr>sent := sent ?s1 @ map (\<lambda>k. (pageRequest req k, url)) (take (Suc m') ks),
          acc := acc ?s1 @ concat (map itemsOf (take m' ?rs))\<rparr>)" and
      pg: "Page po' = ks ! m'" and
      tot: "if m' = 0 then Pages po' = Pages ?po1 \<and> Results po' = Results ?po1
        else \<exists>items. ?rs ! (m' - 1) = Inr (items, Pages po', Results po')"
      by blast
    have "\<exists>items. replies server url (sent s) (map (pageRequest req) (k # ks)) ! (m - 1) =
             Inr (items, Pages po', Results po')"
    proof (cases m')
      case 0
      with tot r Suc show ?thesis by simp
    next
      case (Suc j)
      with tot \<open>m = Suc m'\<close> show ?thesis by simp
    qed
    with w pg r Suc show ?thesis by simp
  qed
qed

lemma applyListOptionsToRequest_sentinel_page:
  assumes "fetchAllSentinel opts h"
    and "applyListOptionsToRequest (map_option (cells h) opts) req0 = (Inr req1 :: 'e error + _)"
  shows "\<exists>params. queryParamsOf (map_option (cells h) opts) = (Inr params :: 'e error + _) \<and>
           QueryParam req1 ''page'' = (QueryParam req0 ++ params) ''page''"
  using assms
  by (cases opts)
     (auto simp: fetchAllSentinel_def queryParamsOf_def applyListOptionsToRequest_def Let_def
        split: option.splits sum.splits if_splits)

text \<open>
  C1, the first request. The claim says that the first request is for page 1 and that the
  accumulator ends as the items of every page. With page 0 the helper sets no page
  parameter, and a \<^verbatim>\<open>QueryParams\<close> field tagged \<^verbatim>\<open>page\<close> sets its own: here it holds 2,
  the call succeeds, the requests are for pages 2, 2 and 3, and the accumulator holds the
  items of page 2 twice and those of page 3, without the items 1 and 2 of the first page.
\<close>

theorem listHelper_fetches_every_page_counterexample:
  "listHelper (capability exampleEndpoint exampleServer) emptyRequest (Some 0) []
     (assign 0 \<lparr>PageOptions = None, PageSize = 0, Filter = [],
                 QueryParams = Some (VStruct ''Params''
                   [(''Page'', Some ''page'', VInt KInt ''int'' 2)])\<rparr> exampleStore)
     emptyPager =
   (None,
    assign 0 \<lparr>PageOptions = Some \<lparr>Page = 3, Pages = 3, Results = 6\<rparr>, PageSize = 0,
               Filter = [],
               QueryParams = Some (VStruct ''Params''
                   [(''Page'', Some ''page'', VInt KInt ''int'' 2)])\<rparr> exampleStore,
    \<lparr>sent = [(\<lparr>QueryParam = [''page'' \<mapsto> ''2''], Header = Map.empty\<rparr>, ''instances''),
             (\<lparr>QueryParam = [''page'' \<mapsto> ''2''], Header = Map.empty\<rparr>, ''instances''),
             (\<lparr>QueryParam = [''page'' \<mapsto> ''3''], Header = Map.empty\<rparr>, ''instances'')],
     acc = [3, 4, 3, 4, 5, 6]\<rparr>) \<and>
   exampleServer [] emptyRequest ''instances'' = Inr ([1, 2], 3, 6)"
  by (simp add: listHelper_fetch_all_Some example_defs)

text \<open>
  C1, as amended. The options are nil, or their page window is nil, or its page is 0;
  neither the fresh request nor \<^verbatim>\<open>QueryParams\<close> carries a parameter \<^verbatim>\<open>page\<close>; and
  \<open>listHelper\<close> returns no error. Then the first request is the one the options apply to,
  and it carries no parameter \<^verbatim>\<open>page\<close>; the server's reply to it gives the number of
  pages; the requests issued are this one followed by one request for each page from 2
  to that number, in ascending order, each carrying its page number in the parameter
  \<^verbatim>\<open>page\<close>; each is answered with the earlier ones on the server's record. There are as
  many requests as pages, and one if the server reports no more than one page. Every
  reply is a page, and the accumulator has grown by the items of these pages, in the
  order of the requests.
\<close>

theorem listHelper_fetches_every_page:
  fixes server :: "('x, 'e) server"
  assumes sen: "fetchAllSentinel opts h"
    and nopage: "\<And>params. queryParamsOf (map_option (cells h) opts) = (Inr params :: 'e error + _) \<Longrightarrow>
       (QueryParam req0 ++ params) ''page'' = None"
    and run: "listHelper (capability ep server) req0 opts ids h s = (None, h', s')"
  shows "\<exists>req1 items pages results.
     applyListOptionsToRequest (map_option (cells h) opts) req0 = (Inr req1 :: 'e error + _) \<and>
     server (sent s) req1 (ep ids) = Inr (items, pages, results) \<and>
     QueryParam req1 ''page'' = None \<and>
     sent s' = sent s @ map (\<lambda>req. (req, ep ids)) (req1 # map (pageRequest req1) [2..pages]) \<and>
     map (\<lambda>req. QueryParam req ''page'') (req1 # map (pageRequest req1) [2..pages]) =
       None # map (\<lambda>k. Some (Itoa k)) [2..pages] \<and>
     length (sent s') = length (sent s) + (if pages \<le> 1 then 1 else nat pages) \<and>
     list_all isPage
       (replies server (ep ids) (sent s) (req1 # map (pageRequest req1) [2..pages])) \<and>
     acc s' = acc s @ concat (map itemsOf
        (replies server (ep ids) (sent s) (req1 # map (pageRequest req1) [2..pages])))"
proof -
  from fetch_all_first_reply [OF sen run] obtain req1 items pages results where
    ap: "applyListOptionsToRequest (map_option (cells h) opts) req0 = (Inr req1 :: 'e error + _)" and
    re: "server (sent s) req1 (ep ids) = Inr (items, pages, results)"
    by blast
  from applyListOptionsToRequest_sentinel_page [OF sen ap] nopage
  have np: "QueryParam req1 ''page'' = None"
    by auto
  from fetch_all_requests [OF sen run ap re] obtain po0 po' where
    w: "walkPages server (ep ids) req1 [2..pages] po0
          (s\<lparr>sent := sent s @ [(req1, ep ids)], acc := acc s @ items\<rparr>) = (None, po', s')"
    by blast
  from walkPages_success [OF w] have
    se: "sent s' = sent s @ map (\<lambda>req. (req, ep ids)) (req1 # map (pageRequest req1) [2..pages])" and
    ac: "acc s' = acc s @ concat (map itemsOf
        (replies server (ep ids) (sent s) (req1 # map (pageRequest req1) [2..pages])))"
    using re by (simp_all add: comp_def)
  from walkPages_success_pages [OF w] re have
    pg: "list_all isPage
       (replies server (ep ids) (sent s) (req1 # map (pageRequest req1) [2..pages]))"
    by simp
  have le: "length (sent s') = length (sent s) + (if pages \<le> 1 then 1 else nat pages)"
    unfolding se using length_pages [of pages] by simp
  have ps: "map (\<lambda>req. QueryParam req ''page'') (req1 # map (pageRequest req1) [2..pages]) =
       None # map (\<lambda>k. Some (Itoa k)) [2..pages]"
    using np by (simp add: pageRequest_def comp_def)
  show ?thesis
    by (intro exI conjI) (rule ap, rule re, rule np, rule se, rule ps, rule le, rule pg, rule ac)
qed

theorem listHelper_fetches_every_page_witness:
  "fetchAllSentinel (Some 0) exampleStore \<and>
   (queryParamsOf (map_option (cells exampleStore) (Some 0)) :: unit error + _) = Inr Map.empty \<and>
   (QueryParam emptyRequest ++ Map.empty) ''page'' = None \<and>
   listHelper (capability exampleEndpoint exampleServer) emptyRequest (Some 0) [] exampleStore
     emptyPager =
   (None,
    assign 0 \<lparr>PageOptions = Some \<lparr>Page = 3, Pages = 3, Results = 6\<rparr>, PageSize = 0,
               Filter = [], QueryParams = None\<rparr> exampleStore,
    \<lparr>sent = [(emptyRequest, ''instances''), (pageRequest emptyRequest 2, ''instances''),
             (pageRequest emptyRequest 3, ''instances'')],
     acc = [1, 2, 3, 4, 5, 6]\<rparr>) \<and>
   length [(emptyRequest, ''instances''), (pageRequest emptyRequest 2, ''instances''),
           (pageRequest emptyRequest 3, ''instances'')] = 3"
proof -
  have a: "fetchAllSentinel (Some 0) exampleStore"
    by (simp add: example_defs)
  have q: "(queryParamsOf (map_option (cells exampleStore) (Some 0)) :: unit error + _) =
      Inr Map.empty"
    by (simp add: queryParamsOf_def exampleStore_def)
  have b: "\<And>params. queryParamsOf (map_option (cells exampleStore) (Some 0)) =
      (Inr params :: unit error + _) \<Longrightarrow> (QueryParam emptyRequest ++ params) ''page'' = None"
    unfolding q by (auto simp: emptyRequest_def)
  from listHelper_fetches_every_page [OF a b example_run] a q example_run show ?thesis
    by (simp add: emptyRequest_def)
qed

text \<open>
  C8. The options apply to the request. If the server fails on the first request,
  \<open>listHelper\<close> returns the server's error, that request is the only one issued, and the
  store and the accumulator are as they were. If the options ask for every page, the
  first reply is a page, and among the requests to come (the first followed by one for
  each page from 2 to the number of pages of the first reply) the server answers the
  \<open>n\<close> earliest with pages and fails on the next, then \<open>listHelper\<close> returns that
  failure: the requests issued are those up to the failed one and no more, and the
  accumulator keeps the items of the \<open>n\<close> pages fetched before it. The totals of the
  first reply are not written: the page window holds the page that failed and the totals
  written by the request before it, or, if that was the first request, the totals it had
  before the call (zero when the call created the window). No other object of the store
  is changed.
\<close>

theorem listHelper_page_failure:
  fixes server :: "('x, 'e) server"
  defines "target opts h \<equiv> (case opts of None \<Rightarrow> next_free h | Some a \<Rightarrow> a)"
    and "before opts h \<equiv>
      (case (case opts of None \<Rightarrow> None | Some a \<Rightarrow> PageOptions (cells h a)) of
         None \<Rightarrow> (0, 0) | Some po \<Rightarrow> (Pages po, Results po))"
    and "reqs r p \<equiv> r # map (pageRequest r) [2..p]"
  assumes ap: "applyListOptionsToRequest (map_option (cells h) opts) req0 = (Inr req1 :: 'e error + _)"
  shows "(server (sent s) req1 (ep ids) = Inl err \<longrightarrow>
            listHelper (capability ep server) req0 opts ids h s =
              (Some err, h, s\<lparr>sent := sent s @ [(req1, ep ids)]\<rparr>)) \<and>
         (fetchAllSentinel opts h \<and>
          server (sent s) req1 (ep ids) = Inr (items, pages, results) \<and>
          0 < n \<and> n < length (reqs req1 pages) \<and>
          replies server (ep ids) (sent s) (reqs req1 pages) ! n = Inl err \<and>
          list_all isPage (take n (replies server (ep ids) (sent s) (reqs req1 pages))) \<longrightarrow>
            (\<exists>h' po'.
               listHelper (capability ep server) req0 opts ids h s =
                 (Some err, h',
                  s\<lparr>sent := sent s @ map (\<lambda>req. (req, ep ids)) (take (Suc n) (reqs req1 pages)),
                    acc := acc s @ concat (map itemsOf
                      (take n (replies server (ep ids) (sent s) (reqs req1 pages))))\<rparr>) \<and>
               (\<forall>b. b \<noteq> target opts h \<longrightarrow> cells h' b = cells h b) \<and>
               PageOptions (cells h' (target opts h)) = Some po' \<and>
               Page po' = int n + 1 \<and>
               (if n = 1 then (Pages po', Results po') = before opts h
                else \<exists>items'.
                  replies server (ep ids) (sent s) (reqs req1 pages) ! (n - 1) =
                    Inr (items', Pages po', Results po'))))"
proof (intro conjI impI)
  assume "server (sent s) req1 (ep ids) = Inl err"
  from listHelper_first_page_failure [where ep = ep and ids = ids and server = server and s = s,
      OF ap this]
  show "listHelper (capability ep server) req0 opts ids h s =
      (Some err, h, s\<lparr>sent := sent s @ [(req1, ep ids)]\<rparr>)" .
next
  assume asm: "fetchAllSentinel opts h \<and>
          server (sent s) req1 (ep ids) = Inr (items, pages, results) \<and>
          0 < n \<and> n < length (reqs req1 pages) \<and>
          replies server (ep ids) (sent s) (reqs req1 pages) ! n = Inl err \<and>
          list_all isPage (take n (replies server (ep ids) (sent s) (reqs req1 pages)))"
  let ?url = "ep ids"
  let ?s1 = "s\<lparr>sent := sent s @ [(req1, ?url)], acc := acc s @ items\<rparr>"
  let ?ks = "[2..pages]"
  let ?tl = "replies server ?url (sent ?s1) (map (pageRequest req1) ?ks)"
  from asm have sen: "fetchAllSentinel opts h"
    and re: "server (sent s) req1 ?url = Inr (items, pages, results)"
    by simp_all
  have rs: "replies server ?url (sent s) (reqs req1 pages) = Inr (items, pages, results) # ?tl"
    using re by (simp add: reqs_def)
  from asm obtain m where n: "n = Suc m" by (cases n) auto
  from asm n rs have m: "m < length ?ks" and fail: "?tl ! m = Inl err"
    and ok: "list_all isPage (take m ?tl)"
    by (simp_all add: reqs_def)
  have nth: "?ks ! m = int n + 1"
    using m n by (simp add: length_upto)
  define po0 where "po0 =
    (case (case opts of None \<Rightarrow> None | Some a \<Rightarrow> PageOptions (cells h a)) of
       None \<Rightarrow> \<lparr>Page = 0, Pages = 0, Results = 0\<rparr> | Some po \<Rightarrow> po)"
  have bef: "(Pages po0, Results po0) = before opts h"
    by (simp add: po0_def before_def split: option.splits)
  from walkPages_first_failure [OF m fail ok, of po0] obtain po' where
    w: "walkPages server ?url req1 ?ks po0 ?s1 =
       (Some err, po',
        ?s1\<lparr>sent := sent ?s1 @ map (\<lambda>k. (pageRequest req1 k, ?url)) (take (Suc m) ?ks),
          acc := acc ?s1 @ concat (map itemsOf (take m ?tl))\<rparr>)" and
    pg: "Page po' = ?ks ! m" and
    tot: "if m = 0 then Pages po' = Pages po0 \<and> Results po' = Results po0
      else \<exists>items. ?tl ! (m - 1) = Inr (items, Pages po', Results po')"
    by blast
  let ?s' = "s\<lparr>sent := sent s @ map (\<lambda>req. (req, ?url)) (take (Suc n) (reqs req1 pages)),
      acc := acc s @ concat (map itemsOf
        (take n (replies server ?url (sent s) (reqs req1 pages))))\<rparr>"
  have s': "?s1\<lparr>sent := sent ?s1 @ map (\<lambda>k. (pageRequest req1 k, ?url)) (take (Suc m) ?ks),
          acc := acc ?s1 @ concat (map itemsOf (take m ?tl))\<rparr> = ?s'"
    unfolding rs n by (simp add: reqs_def take_map comp_def)
  define h' where "h' =
    (case opts of
       None \<Rightarrow>
         h\<lparr>cells := (cells h)(next_free h :=
               \<lparr>PageOptions = Some po', PageSize = 0, Filter = [], QueryParams = None\<rparr>),
            next_free := Suc (next_free h)\<rparr>
     | Some a \<Rightarrow> assign a ((cells h a)\<lparr>PageOptions := Some po'\<rparr>) h)"
  have run: "listHelper (capability ep server) req0 opts ids h s = (Some err, h', ?s')"
  proof (cases opts)
    case None
    with ap have "req1 = req0" by (simp add: applyListOptionsToRequest_def)
    with None re w s' show ?thesis
      by (simp add: listHelper_fetch_all_None po0_def h'_def)
  next
    case (Some a)
    with ap re w s' sen show ?thesis
      by (simp add: listHelper_fetch_all_Some po0_def h'_def)
  qed
  have frame: "\<forall>b. b \<noteq> target opts h \<longrightarrow> cells h' b = cells h b"
    by (cases opts) (simp_all add: h'_def target_def)
  have win: "PageOptions (cells h' (target opts h)) = Some po'"
    by (cases opts) (simp_all add: h'_def target_def)
  have page: "Page po' = int n + 1"
    using pg nth by simp
  have totals: "if n = 1 then (Pages po', Results po') = before opts h
      else \<exists>items'. replies server ?url (sent s) (reqs req1 pages) ! (n - 1) =
             Inr (items', Pages po', Results po')"
  proof (cases m)
    case 0
    with tot bef n show ?thesis by auto
  next
    case (Suc j)
    with tot n rs show ?thesis by simp
  qed
  show "\<exists>h' po'.
     listHelper (capability ep server) req0 opts ids h s = (Some err, h', ?s') \<and>
     (\<forall>b. b \<noteq> target opts h \<longrightarrow> cells h' b = cells h b) \<and>
     PageOptions (cells h' (target opts h)) = Some po' \<and>
     Page po' = int n + 1 \<and>
     (if n = 1 then (Pages po', Results po') = before opts h
      else \<exists>items'. replies server ?url (sent s) (reqs req1 pages) ! (n - 1) =
             Inr (items', Pages po', Results po'))"
    by (intro exI conjI) (rule run, rule frame, rule win, rule page, rule totals)
qed

theorem listHelper_page_failure_witness:
  "fetchAllSentinel (Some 0) exampleStore \<and>
   failingServer [] emptyRequest ''instances'' = Inr ([1, 2], 3, 6) \<and>
   replies failingServer ''instances'' []
     [emptyRequest, pageRequest emptyRequest 2, pageRequest emptyRequest 3] ! 2 =
     Inl (External ()) \<and>
   fst (listHelper (capability exampleEndpoint failingServer) emptyRequest (Some 0) []
     exampleStore emptyPager) = Some (External ()) \<and>
   snd (snd (listHelper (capability exampleEndpoint failingServer) emptyRequest (Some 0) []
     exampleStore emptyPager)) =
    \<lparr>sent = [(emptyRequest, ''instances''), (pageRequest emptyRequest 2, ''instances''),
             (pageRequest emptyRequest 3, ''instances'')],
     acc = [1, 2, 3, 4]\<rparr>"
proof -
  let ?reqs = "[emptyRequest, pageRequest emptyRequest 2, pageRequest emptyRequest 3]"
  have ap: "applyListOptionsToRequest (map_option (cells exampleStore) (Some 0)) emptyRequest =
              (Inr emptyRequest :: unit error + _)"
    by (simp add: example_defs)
  have sen: "fetchAllSentinel (Some 0) exampleStore"
    by (simp add: example_defs)
  have re: "failingServer (sent emptyPager) emptyRequest (exampleEndpoint []) = Inr ([1, 2], 3, 6)"
    by (simp add: example_defs)
  have up: "emptyRequest # map (pageRequest emptyRequest) [2..3] = ?reqs"
    by simp
  have rs: "replies failingServer (exampleEndpoint []) (sent emptyPager) ?reqs =
      [Inr ([1, 2], 3, 6), Inr ([3, 4], 3, 6), Inl (External ())]"
    by (simp add: example_defs)
  have hyp: "fetchAllSentinel (Some 0) exampleStore \<and>
      failingServer (sent emptyPager) emptyRequest (exampleEndpoint []) = Inr ([1, 2], 3, 6) \<and>
      0 < (2 :: nat) \<and> 2 < length (emptyRequest # map (pageRequest emptyRequest) [2..3]) \<and>
      replies failingServer (exampleEndpoint []) (sent emptyPager)
        (emptyRequest # map (pageRequest emptyRequest) [2..3]) ! 2 = Inl (External ()) \<and>
      list_all isPage (take 2 (replies failingServer (exampleEndpoint []) (sent emptyPager)
        (emptyRequest # map (pageRequest emptyRequest) [2..3])))"
    unfolding up rs using sen re by simp
  from listHelper_page_failure [OF ap, where server = failingServer and ep = exampleEndpoint
      and ids = "[]" and s = emptyPager and err = "External ()" and items = "[1, 2]"
      and pages = 3 and results = 6 and n = 2, THEN conjunct2, rule_format, OF hyp]
  obtain h' where "listHelper (capability exampleEndpoint failingServer) emptyRequest (Some 0) []
      exampleStore emptyPager =
     (Some (External ()), h',
      emptyPager\<lparr>sent := sent emptyPager @ map (\<lambda>req. (req, exampleEndpoint []))
           (take (Suc 2) (emptyRequest # map (pageRequest emptyRequest) [2..3])),
        acc := acc emptyPager @ concat (map itemsOf (take 2
           (replies failingServer (exampleEndpoint []) (sent emptyPager)
              (emptyRequest # map (pageRequest emptyRequest) [2..3]))))\<rparr>)"
    by blast
  then have "fst (listHelper (capability exampleEndpoint failingServer) emptyRequest (Some 0) []
       exampleStore emptyPager) = Some (External ())"
    and "snd (snd (listHelper (capability exampleEndpoint failingServer) emptyRequest (Some 0) []
       exampleStore emptyPager)) =
      \<lparr>sent = [(emptyRequest, ''instances''), (pageRequest emptyRequest 2, ''instances''),
               (pageRequest emptyRequest 3, ''instances'')],
       acc = [1, 2, 3, 4]\<rparr>"
    unfolding up rs by (simp_all add: emptyPager_def exampleEndpoint_def)
  moreover have "failingServer [] emptyRequest ''instances'' = Inr ([1, 2], 3, 6)"
    using re by (simp add: emptyPager_def exampleEndpoint_def)
  moreover have "replies failingServer ''instances'' [] ?reqs ! 2 = Inl (External ())"
    using rs by (simp add: emptyPager_def exampleEndpoint_def)
  ultimately show ?thesis
    using sen by simp
qed

end
